theory Spec2Isabelle
  imports Complex_Main "HOL-Library.Log_Nat"
begin

section \<open>Local authentication (frontend/src/utils/auth.js)\<close>

text \<open>
  auth.js keeps two keys in localStorage: \<open>face2phrase_users\<close> (a JSON array of user
  objects) and \<open>face2phrase_auth\<close> (the auth session written by \<open>loginUser\<close>). The
  model holds the contents of the two keys by what \<open>JSON.parse\<close> makes of the stored
  text. Time stamps are milliseconds since the epoch: \<open>toISOString\<close> followed by
  \<open>new Date(text)\<close> gives the same millisecond back, so the ISO text is not modelled.
  A call reads the clock at one instant \<open>now\<close>. \<open>setItem\<close> is taken to succeed (no
  quota error).
\<close>

record user =
  uid :: string
  username :: string
  password :: string
  email :: string
  fullName :: string
  role :: string
  createdAt :: int
  lastLogin :: "int option"

text \<open>The object stored under \<open>authData.user\<close> and handed to the caller.\<close>

record auth_user =
  au_id :: string
  au_username :: string
  au_email :: string
  au_fullName :: string
  au_role :: string

record auth_data =
  ad_user :: auth_user
  loginTime :: int
  expiresAt :: int

text \<open>
  What the users key holds: nothing (or the empty text), text that \<open>JSON.parse\<close>
  rejects, JSON that is not an array (every array method called on it throws a
  TypeError), or an array of user objects.
\<close>

datatype users_slot = UAbsent | UUnparsable | UNonArray | UArray "user list"

text \<open>
  What the auth key holds: nothing, text on which \<open>getCurrentUser\<close> throws
  (unparsable text, or JSON \<open>null\<close>), or an auth session.
\<close>

datatype auth_slot = AAbsent | AUnreadable | ASession auth_data

record auth_store =
  users_key :: users_slot
  auth_key :: auth_slot

datatype login_result = LoginOk auth_user | LoginFail string

definition day_ms :: int where
  "day_ms = 24 * 60 * 60 * 1000"

text \<open>The largest time value of a JS Date; \<open>toISOString\<close> throws RangeError beyond it.\<close>

definition max_time_ms :: int where
  "max_time_ms = 8640000000000000"

definition defaultUser :: "int \<Rightarrow> user" where
  "defaultUser now = \<lparr> uid = ''1'', username = ''admin'', password = ''admin123'',
     email = ''admin@face2phrase.com'', fullName = ''Administrator'', role = ''admin'',
     createdAt = now, lastLogin = None \<rparr>"

text \<open>
  \<open>getUsers\<close>: the parsed array, or \<open>[]\<close> for a missing key and for text that does not
  parse (the catch branch). JSON that is not an array is returned as it is; the callers
  then throw, which is \<open>None\<close> here.
\<close>

definition getUsers :: "auth_store \<Rightarrow> user list option" where
  "getUsers st = (case users_key st of
      UAbsent \<Rightarrow> Some []
    | UUnparsable \<Rightarrow> Some []
    | UNonArray \<Rightarrow> None
    | UArray us \<Rightarrow> Some us)"

text \<open>\<open>Array.prototype.findIndex\<close>: the first position whose element satisfies the test.\<close>

fun findIndex :: "('a \<Rightarrow> bool) \<Rightarrow> 'a list \<Rightarrow> nat option" where
  "findIndex P [] = None"
| "findIndex P (x # xs) =
     (if P x then Some 0 else (case findIndex P xs of None \<Rightarrow> None | Some i \<Rightarrow> Some (Suc i)))"

text \<open>
  \<open>saveUser\<close>: replaces the first stored user with the same id, or appends. The whole
  body is in a try block; on a TypeError nothing is written.
\<close>

definition saveUser :: "user \<Rightarrow> auth_store \<Rightarrow> auth_store" where
  "saveUser u st = (case getUsers st of
      None \<Rightarrow> st
    | Some us \<Rightarrow> (case findIndex (\<lambda>x. uid x = uid u) us of
          Some i \<Rightarrow> st\<lparr>users_key := UArray (us[i := u])\<rparr>
        | None \<Rightarrow> st\<lparr>users_key := UArray (us @ [u])\<rparr>))"

text \<open>
  \<open>initializeDefaultUser\<close>: stores the admin user when no user exists. \<open>None\<close> is the
  TypeError of reading \<open>length\<close> on a value that is not an array.
\<close>

definition initializeDefaultUser :: "int \<Rightarrow> auth_store \<Rightarrow> auth_store option" where
  "initializeDefaultUser now st = (case getUsers st of
      None \<Rightarrow> None
    | Some us \<Rightarrow> Some (if us = [] then saveUser (defaultUser now) st else st))"

definition public_fields :: "user \<Rightarrow> auth_user" where
  "public_fields u = \<lparr> au_id = uid u, au_username = username u, au_email = email u,
     au_fullName = fullName u, au_role = role u \<rparr>"

text \<open>
  \<open>loginUser\<close>: the first stored user with this name and password. On success the
  user's \<open>lastLogin\<close> is saved and the auth session, expiring 24 hours later, is stored.
  Every exception inside is caught and reported as a failure.
\<close>

definition loginUser :: "int \<Rightarrow> string \<Rightarrow> string \<Rightarrow> auth_store \<Rightarrow> login_result \<times> auth_store" where
  "loginUser now un pw st = (case initializeDefaultUser now st of
      None \<Rightarrow> (LoginFail ''TypeError'', st)
    | Some st1 \<Rightarrow> (case getUsers st1 of
          None \<Rightarrow> (LoginFail ''TypeError'', st1)
        | Some us \<Rightarrow> (case find (\<lambda>u. username u = un \<and> password u = pw) us of
              None \<Rightarrow> (LoginFail ''Invalid username or password'', st1)
            | Some u \<Rightarrow>
                (let st2 = saveUser (u\<lparr>lastLogin := Some now\<rparr>) st1 in
                 if max_time_ms < now + day_ms then (LoginFail ''Invalid time value'', st2)
                 else (LoginOk (public_fields u),
                       st2\<lparr>auth_key := ASession \<lparr> ad_user = public_fields u,
                          loginTime = now, expiresAt = now + day_ms \<rparr>\<rparr>)))))"

definition logoutUser :: "auth_store \<Rightarrow> auth_store" where
  "logoutUser st = st\<lparr>auth_key := AAbsent\<rparr>"

text \<open>
  \<open>getCurrentUser\<close>: \<open>None\<close> is JS \<open>null\<close>. An expired or unreadable session is removed.
\<close>

definition getCurrentUser :: "int \<Rightarrow> auth_store \<Rightarrow> auth_user option \<times> auth_store" where
  "getCurrentUser now st = (case auth_key st of
      AAbsent \<Rightarrow> (None, st)
    | AUnreadable \<Rightarrow> (None, logoutUser st)
    | ASession ad \<Rightarrow> (if expiresAt ad < now then (None, logoutUser st)
                      else (Some (ad_user ad), st)))"

definition isAuthenticated :: "int \<Rightarrow> auth_store \<Rightarrow> bool" where
  "isAuthenticated now st = (fst (getCurrentUser now st) \<noteq> None)"

definition empty_store :: auth_store where
  "empty_store = \<lparr> users_key = UAbsent, auth_key = AAbsent \<rparr>"

text \<open>A first login of the default administrator into an empty store, at time 1000.\<close>

definition admin_public :: auth_user where
  "admin_public = \<lparr> au_id = ''1'', au_username = ''admin'',
     au_email = ''admin@face2phrase.com'', au_fullName = ''Administrator'',
     au_role = ''admin'' \<rparr>"

definition admin_logged_in :: auth_store where
  "admin_logged_in = \<lparr>
     users_key = UArray [(defaultUser 1000)\<lparr>lastLogin := Some 1000\<rparr>],
     auth_key = ASession \<lparr> ad_user = admin_public, loginTime = 1000,
                            expiresAt = 1000 + day_ms \<rparr> \<rparr>"

section \<open>JavaScript values\<close>

text \<open>
  The analysis and history data reach the components as parsed JSON. A value is one of
  the JSON shapes or \<open>undefined\<close>; a number is kept as the rational its double denotes
  (JSON has no NaN and no infinity), and a rational that is no double is read as the
  double nearest to it. An object is its list of properties; the first entry of a name
  is the property.
\<close>

datatype jsval =
    Undefined
  | JNull
  | JBool bool
  | JNum rat
  | JStr string
  | JArr "jsval list"
  | JObj "(string \<times> jsval) list"

datatype js_error = TypeError | SyntaxError

text \<open>The result of arithmetic: a finite number, NaN or an infinity.\<close>

datatype jsnum = NaN | PosInf | NegInf | Fin rat

text \<open>ToBoolean.\<close>

fun truthy :: "jsval \<Rightarrow> bool" where
  "truthy Undefined = False"
| "truthy JNull = False"
| "truthy (JBool b) = b"
| "truthy (JNum r) = (r \<noteq> 0)"
| "truthy (JStr s) = (s \<noteq> [])"
| "truthy (JArr xs) = True"
| "truthy (JObj kvs) = True"

text \<open>\<open>x || d\<close>.\<close>

definition or_else :: "jsval \<Rightarrow> jsval \<Rightarrow> jsval" where
  "or_else x d = (if truthy x then x else d)"

text \<open>
  \<open>v.k\<close> for a property name \<open>k\<close> that no prototype defines (the names read below):
  a TypeError on \<open>undefined\<close> and \<open>null\<close>, the property of an object, \<open>undefined\<close>
  on every other value.
\<close>

fun get_prop :: "jsval \<Rightarrow> string \<Rightarrow> js_error + jsval" where
  "get_prop Undefined k = Inl TypeError"
| "get_prop JNull k = Inl TypeError"
| "get_prop (JObj kvs) k = Inr (case map_of kvs k of None \<Rightarrow> Undefined | Some x \<Rightarrow> x)"
| "get_prop v k = Inr Undefined"

text \<open>\<open>v?.k\<close>: never throws.\<close>

fun opt_prop :: "jsval \<Rightarrow> string \<Rightarrow> jsval" where
  "opt_prop (JObj kvs) k = (case map_of kvs k of None \<Rightarrow> Undefined | Some x \<Rightarrow> x)"
| "opt_prop v k = Undefined"

text \<open>Decimal text of an index, the property name under which \<open>o[i]\<close> is kept.\<close>

fun show_nat :: "nat \<Rightarrow> string" where
  "show_nat n = (if n < 10 then [''0123456789'' ! n]
                 else show_nat (n div 10) @ [''0123456789'' ! (n mod 10)])"

declare show_nat.simps [simp del]

text \<open>\<open>v[i]\<close> for a natural number \<open>i\<close>.\<close>

fun index :: "jsval \<Rightarrow> nat \<Rightarrow> js_error + jsval" where
  "index Undefined i = Inl TypeError"
| "index JNull i = Inl TypeError"
| "index (JArr xs) i = Inr (if i < length xs then xs ! i else Undefined)"
| "index (JStr s) i = Inr (if i < length s then JStr [s ! i] else Undefined)"
| "index (JObj kvs) i = Inr (case map_of kvs (show_nat i) of None \<Rightarrow> Undefined | Some x \<Rightarrow> x)"
| "index v i = Inr Undefined"

section \<open>Numbers\<close>

text \<open>
  A JavaScript number is an IEEE 754 double. A finite double is kept as the rational
  it denotes (the sign of zero is not kept), and every arithmetic result is rounded to
  the nearest double, a tie going to the even significand.
\<close>

text \<open>The power of two with an integer exponent.\<close>

definition pow2 :: "int \<Rightarrow> rat" where
  "pow2 e = (if 0 \<le> e then 2 ^ nat e else 1 / 2 ^ nat (- e))"

text \<open>
  The position of the leading binary digit of a positive rational \<open>x\<close>: the \<open>e\<close> with
  \<open>pow2 e \<le> x < pow2 (e + 1)\<close>.
\<close>

definition ilog2 :: "rat \<Rightarrow> int" where
  "ilog2 x = (if 1 \<le> x then bitlen \<lfloor>x\<rfloor> - 1 else - bitlen (\<lceil>1 / x\<rceil> - 1))"

text \<open>The nearest integer, a tie going to the even one.\<close>

definition round_half_even :: "rat \<Rightarrow> int" where
  "round_half_even y = (let m = \<lfloor>y\<rfloor>; d = y - of_int m in
     if d < 1 / 2 then m else if 1 / 2 < d then m + 1 else if even m then m else m + 1)"

text \<open>
  Rounding an exact value to a double: 53 significant binary digits, the unit in the
  last place no smaller than \<open>pow2 (- 1074)\<close> (subnormal numbers), and an infinity
  when the rounded value reaches \<open>pow2 1024\<close>.
\<close>

definition to_double :: "rat \<Rightarrow> jsnum" where
  "to_double x = (if x = 0 then Fin 0 else
     (let e = max (ilog2 \<bar>x\<bar> - 52) (- 1074);
          r = of_int (round_half_even (\<bar>x\<bar> / pow2 e)) * pow2 e
      in if pow2 1024 \<le> r then (if 0 < x then PosInf else NegInf)
         else Fin (if 0 < x then r else - r)))"

text \<open>
  ToNumber on \<open>undefined\<close>, \<open>null\<close>, booleans and numbers; a number of the data is read
  as the double nearest to it. The conversion of strings, arrays and objects goes
  through the text of the value (and can throw for an object) and is not modelled:
  \<open>None\<close>.
\<close>

fun to_number :: "jsval \<Rightarrow> jsnum option" where
  "to_number Undefined = Some NaN"
| "to_number JNull = Some (Fin 0)"
| "to_number (JBool b) = Some (Fin (if b then 1 else 0))"
| "to_number (JNum r) = Some (to_double r)"
| "to_number v = None"

text \<open>Division, multiplication and addition of numbers.\<close>

fun js_div :: "jsnum \<Rightarrow> jsnum \<Rightarrow> jsnum" where
  "js_div (Fin a) (Fin b) =
     (if b = 0 then (if a = 0 then NaN else if 0 < a then PosInf else NegInf)
      else to_double (a / b))"
| "js_div (Fin a) PosInf = Fin 0"
| "js_div (Fin a) NegInf = Fin 0"
| "js_div PosInf (Fin b) = (if 0 \<le> b then PosInf else NegInf)"
| "js_div NegInf (Fin b) = (if 0 \<le> b then NegInf else PosInf)"
| "js_div x y = NaN"

fun js_mul :: "jsnum \<Rightarrow> jsnum \<Rightarrow> jsnum" where
  "js_mul (Fin a) (Fin b) = to_double (a * b)"
| "js_mul PosInf (Fin b) = (if b = 0 then NaN else if 0 < b then PosInf else NegInf)"
| "js_mul NegInf (Fin b) = (if b = 0 then NaN else if 0 < b then NegInf else PosInf)"
| "js_mul (Fin a) PosInf = (if a = 0 then NaN else if 0 < a then PosInf else NegInf)"
| "js_mul (Fin a) NegInf = (if a = 0 then NaN else if 0 < a then NegInf else PosInf)"
| "js_mul PosInf PosInf = PosInf"
| "js_mul NegInf NegInf = PosInf"
| "js_mul PosInf NegInf = NegInf"
| "js_mul NegInf PosInf = NegInf"
| "js_mul x y = NaN"

fun js_add :: "jsnum \<Rightarrow> jsnum \<Rightarrow> jsnum" where
  "js_add (Fin a) (Fin b) = to_double (a + b)"
| "js_add NaN y = NaN"
| "js_add x NaN = NaN"
| "js_add PosInf NegInf = NaN"
| "js_add NegInf PosInf = NaN"
| "js_add PosInf y = PosInf"
| "js_add NegInf y = NegInf"
| "js_add x PosInf = PosInf"
| "js_add x NegInf = NegInf"

text \<open>\<open>x > 0\<close> for a number \<open>x\<close>; every comparison with NaN is false.\<close>

fun js_positive :: "jsnum \<Rightarrow> bool" where
  "js_positive (Fin a) = (0 < a)"
| "js_positive PosInf = True"
| "js_positive x = False"

text \<open>
  \<open>Math.round\<close> of a double: the nearest integer, a tie going up. The result is
  exact: the integers next to a double below \<open>pow2 52\<close> are doubles, and the doubles
  from there on are integers.
\<close>

fun Math_round :: "jsnum \<Rightarrow> jsnum" where
  "Math_round (Fin x) = Fin (of_int \<lfloor>x + 1 / 2\<rfloor>)"
| "Math_round x = x"

text \<open>Replacing or adding a property.\<close>

fun set_prop :: "string \<Rightarrow> jsval \<Rightarrow> (string \<times> jsval) list \<Rightarrow> (string \<times> jsval) list" where
  "set_prop k v [] = [(k, v)]"
| "set_prop k v ((k', x) # kvs) = (if k' = k then (k, v) # kvs else (k', x) # set_prop k v kvs)"

section \<open>The analysis dashboard (frontend/src/AnalysisDashboard.js)\<close>

text \<open>
  \<open>analysisData\<close> is the parsed reply of \<open>/api/combined-analysis\<close>, or \<open>null\<close> before it
  arrives. Each render function is modelled by the values it puts on the page; an
  error thrown while rendering is \<open>Inl\<close> of it.
\<close>

record overview_item =
  oi_text :: string
  oi_speech :: bool
  oi_video :: bool

record overview =
  ov_totalQuestions :: nat
  ov_speechAnalyzed :: nat
  ov_videoAnalyzed :: nat
  ov_complete :: jsnum
  ov_items :: "overview_item list"

text \<open>\<open>qs.filter(q => q.k).length\<close>.\<close>

fun count_truthy :: "string \<Rightarrow> jsval list \<Rightarrow> js_error + nat" where
  "count_truthy k [] = Inr 0"
| "count_truthy k (q # qs) =
     (case get_prop q k of
        Inl e \<Rightarrow> Inl e
      | Inr v \<Rightarrow> (case count_truthy k qs of
            Inl e \<Rightarrow> Inl e
          | Inr n \<Rightarrow> Inr (if truthy v then Suc n else n)))"

text \<open>
  One row of the question list: \<open>question.question.substring(0, 80)\<close> followed by
  three dots, and the two status icons.
\<close>

definition overview_row :: "jsval \<Rightarrow> js_error + overview_item" where
  "overview_row q = (case get_prop q ''question'' of
      Inr (JStr s) \<Rightarrow>
        Inr \<lparr> oi_text = take 80 s @ ''...'',
              oi_speech = truthy (opt_prop q ''speech_analysis''),
              oi_video = truthy (opt_prop q ''video_analysis'') \<rparr>
    | _ \<Rightarrow> Inl TypeError)"

fun overview_rows :: "jsval list \<Rightarrow> js_error + overview_item list" where
  "overview_rows [] = Inr []"
| "overview_rows (q # qs) =
     (case overview_row q of
        Inl e \<Rightarrow> Inl e
      | Inr r \<Rightarrow> (case overview_rows qs of Inl e \<Rightarrow> Inl e | Inr rs \<Rightarrow> Inr (r # rs)))"

text \<open>
  The figure under "Analysis Complete":
  \<open>Math.round((speechAnalyzed + videoAnalyzed) / (totalQuestions * 2) * 100)\<close>. The
  three counts are lengths of arrays, below \<open>2 ^ 32\<close>, so the sum and the doubling are
  exact; the quotient and the product are rounded.
\<close>

definition analysis_complete :: "nat \<Rightarrow> nat \<Rightarrow> nat \<Rightarrow> jsnum" where
  "analysis_complete speechAnalyzed videoAnalyzed totalQuestions =
     Math_round (js_mul (js_div (Fin (of_nat (speechAnalyzed + videoAnalyzed)))
                                (Fin (of_nat (totalQuestions * 2)))) (Fin 100))"

text \<open>\<open>renderOverview\<close>: \<open>Inr None\<close> is the \<open>null\<close> returned while there is no data.\<close>

definition renderOverview :: "jsval \<Rightarrow> js_error + overview option" where
  "renderOverview analysisData =
     (if \<not> truthy analysisData then Inr None
      else (case get_prop analysisData ''question_analyses'' of
          Inr (JArr qs) \<Rightarrow>
            (case count_truthy ''speech_analysis'' qs of
               Inl e \<Rightarrow> Inl e
             | Inr s \<Rightarrow> (case count_truthy ''video_analysis'' qs of
                  Inl e \<Rightarrow> Inl e
                | Inr v \<Rightarrow> (case overview_rows qs of
                     Inl e \<Rightarrow> Inl e
                   | Inr rows \<Rightarrow> Inr (Some \<lparr> ov_totalQuestions = length qs,
                        ov_speechAnalyzed = s, ov_videoAnalyzed = v,
                        ov_complete = analysis_complete s v (length qs),
                        ov_items = rows \<rparr>))))
        | _ \<Rightarrow> Inl TypeError))"

text \<open>
  \<open>analysisData?.question_analyses[selectedQuestion]\<close>, the entry both detail tabs
  start from.
\<close>

definition currentQuestion :: "jsval \<Rightarrow> nat \<Rightarrow> js_error + jsval" where
  "currentQuestion analysisData selectedQuestion =
     (case analysisData of
        Undefined \<Rightarrow> Inr Undefined
      | JNull \<Rightarrow> Inr Undefined
      | _ \<Rightarrow> index (opt_prop analysisData ''question_analyses'') selectedQuestion)"

text \<open>\<open>report?.a?.b || d\<close>, the shape of every metric card.\<close>

definition metric :: "jsval \<Rightarrow> string \<Rightarrow> string \<Rightarrow> jsval \<Rightarrow> jsval" where
  "metric report a b d = or_else (opt_prop (opt_prop report a) b) d"

text \<open>\<open>Math.round((report?.a?.b || 0) * 100)\<close>; \<open>None\<close> where ToNumber is not modelled.\<close>

definition percent_metric :: "jsval \<Rightarrow> string \<Rightarrow> string \<Rightarrow> jsnum option" where
  "percent_metric report a b =
     map_option (\<lambda>x. Math_round (js_mul x (Fin 100))) (to_number (metric report a b (JNum 0)))"

text \<open>
  \<open>data.visualization && <Plot data={JSON.parse(data.visualization).data}
  layout={{...JSON.parse(data.visualization).layout, autosize: true, height: 600}} />\<close>.
  No plot when the value is falsy. Otherwise the value is parsed while the page is
  rendered: \<open>parse\<close> stands for \<open>JSON.parse\<close> applied to a value (a SyntaxError when its
  text is not JSON), and reading \<open>data\<close> of a parsed \<open>null\<close> is a TypeError. The plot is
  kept as its data and the parsed layout that is spread into the layout.
\<close>

record plot =
  pl_data :: jsval
  pl_layout :: jsval

definition plot_source :: "(jsval \<Rightarrow> js_error + jsval) \<Rightarrow> jsval \<Rightarrow> js_error + plot option" where
  "plot_source parse analysis =
     (let v = opt_prop analysis ''visualization'' in
      if \<not> truthy v then Inr None
      else (case parse v of
          Inl e \<Rightarrow> Inl e
        | Inr parsed \<Rightarrow> (case get_prop parsed ''data'' of
              Inl e \<Rightarrow> Inl e
            | Inr d \<Rightarrow> Inr (Some \<lparr> pl_data = d, pl_layout = opt_prop parsed ''layout'' \<rparr>))))"

text \<open>
  \<open>report?.recommendations && report.recommendations.map(...)\<close>: no list when the
  value is falsy, a TypeError when it is truthy and not an array.
\<close>

definition recommendations :: "jsval \<Rightarrow> js_error + jsval list option" where
  "recommendations report =
     (let r = opt_prop report ''recommendations'' in
      if \<not> truthy r then Inr None
      else (case r of JArr xs \<Rightarrow> Inr (Some xs) | _ \<Rightarrow> Inl TypeError))"

record speech_panel =
  sp_mean_pitch :: jsval
  sp_speech_rate :: "jsnum option"
  sp_energy_level :: jsval
  sp_voice_clarity :: jsval
  sp_plot :: "plot option"
  sp_recommendations :: "jsval list option"

datatype speech_view = SpeechNotAvailable | SpeechPanel speech_panel

text \<open>
  The page for a truthy \<open>speechData\<close>. The four cards are evaluated first (nothing in
  them throws where ToNumber is modelled), then the plot, then the recommendations.
\<close>

definition speechPanel :: "(jsval \<Rightarrow> js_error + jsval) \<Rightarrow> jsval \<Rightarrow> js_error + speech_view" where
  "speechPanel parse speechData =
     (let report = opt_prop speechData ''report'' in
      case plot_source parse speechData of
        Inl e \<Rightarrow> Inl e
      | Inr pl \<Rightarrow> (case recommendations report of
          Inl e \<Rightarrow> Inl e
        | Inr recs \<Rightarrow> Inr (SpeechPanel \<lparr>
            sp_mean_pitch = metric report ''pitch_analysis'' ''mean_pitch'' (JNum 0),
            sp_speech_rate = percent_metric report ''speech_timing'' ''speech_rate'',
            sp_energy_level =
              metric report ''energy_analysis'' ''volume_consistency'' (JStr ''N/A''),
            sp_voice_clarity = metric report ''spectral_analysis'' ''voice_clarity'' (JStr ''N/A''),
            sp_plot = pl,
            sp_recommendations = recs \<rparr>)))"

definition renderSpeechAnalysis ::
  "(jsval \<Rightarrow> js_error + jsval) \<Rightarrow> jsval \<Rightarrow> nat \<Rightarrow> js_error + speech_view" where
  "renderSpeechAnalysis parse analysisData selectedQuestion =
     (case currentQuestion analysisData selectedQuestion of
        Inl e \<Rightarrow> Inl e
      | Inr q \<Rightarrow> (let speechData = opt_prop q ''speech_analysis'' in
          if \<not> truthy speechData then Inr SpeechNotAvailable
          else speechPanel parse speechData))"

record video_panel =
  vp_dominant_emotion :: jsval
  vp_eye_contact :: jsval
  vp_engagement :: jsval
  vp_face_detection :: "jsnum option"
  vp_plot :: "plot option"
  vp_recommendations :: "jsval list option"

datatype video_view = VideoNotAvailable | VideoPanel video_panel

text \<open>The page for a truthy \<open>videoData\<close>, evaluated in the same order.\<close>

definition videoPanel :: "(jsval \<Rightarrow> js_error + jsval) \<Rightarrow> jsval \<Rightarrow> js_error + video_view" where
  "videoPanel parse videoData =
     (let report = opt_prop videoData ''report'' in
      case plot_source parse videoData of
        Inl e \<Rightarrow> Inl e
      | Inr pl \<Rightarrow> (case recommendations report of
          Inl e \<Rightarrow> Inl e
        | Inr recs \<Rightarrow> Inr (VideoPanel \<lparr>
            vp_dominant_emotion =
              metric report ''emotion_analysis'' ''dominant_emotion'' (JStr ''N/A''),
            vp_eye_contact =
              metric report ''facial_expression'' ''eye_contact_quality'' (JStr ''N/A''),
            vp_engagement =
              metric report ''engagement_assessment'' ''overall_engagement'' (JStr ''N/A''),
            vp_face_detection = percent_metric report ''video_summary'' ''face_detection_rate'',
            vp_plot = pl,
            vp_recommendations = recs \<rparr>)))"

definition renderVideoAnalysis ::
  "(jsval \<Rightarrow> js_error + jsval) \<Rightarrow> jsval \<Rightarrow> nat \<Rightarrow> js_error + video_view" where
  "renderVideoAnalysis parse analysisData selectedQuestion =
     (case currentQuestion analysisData selectedQuestion of
        Inl e \<Rightarrow> Inl e
      | Inr q \<Rightarrow> (let videoData = opt_prop q ''video_analysis'' in
          if \<not> truthy videoData then Inr VideoNotAvailable
          else videoPanel parse videoData))"

section \<open>The acoustic chart (AcousticVisualization)\<close>

text \<open>
  The component draws \<open>data.features\<close> of one recording, the parsed reply of
  \<open>/api/acoustic-features\<close>. The pitch case of \<open>getChartData\<close> is modelled on
  \<open>features.pitch\<close> as it arrives, whatever its shape.
\<close>

text \<open>An axis label: empty, or \<open>t.toFixed(1)\<close> followed by \<open>s\<close> (kept as the number).\<close>

datatype axis_label = Blank | Seconds rat

record line_chart =
  lc_labels :: "axis_label list"
  lc_name :: string
  lc_data :: "jsval list"

text \<open>
  \<open>(t, i) => i % 10 === 0 ? `${t.toFixed(1)}s` : ''\<close> at position \<open>i\<close>: only a number has
  \<open>toFixed\<close>, and the sample is looked at on every tenth position only.
\<close>

definition tick_label :: "nat \<Rightarrow> jsval \<Rightarrow> js_error + axis_label" where
  "tick_label i t = (if i mod 10 = 0
     then (case t of JNum r \<Rightarrow> Inr (Seconds r) | _ \<Rightarrow> Inl TypeError)
     else Inr Blank)"

fun tick_labels :: "nat \<Rightarrow> jsval list \<Rightarrow> js_error + axis_label list" where
  "tick_labels i [] = Inr []"
| "tick_labels i (t # ts) =
     (case tick_label i t of
        Inl e \<Rightarrow> Inl e
      | Inr l \<Rightarrow> (case tick_labels (Suc i) ts of Inl e \<Rightarrow> Inl e | Inr ls \<Rightarrow> Inr (l # ls)))"

text \<open>
  \<open>features.pitch.time?.map(...) || []\<close>: no label when \<open>time\<close> is \<open>undefined\<close> or \<open>null\<close>,
  a TypeError when it is anything else that has no \<open>map\<close>.
\<close>

definition pitch_labels :: "jsval \<Rightarrow> js_error + axis_label list" where
  "pitch_labels time = (case time of
      Undefined \<Rightarrow> Inr []
    | JNull \<Rightarrow> Inr []
    | JArr ts \<Rightarrow> tick_labels 0 ts
    | _ \<Rightarrow> Inl TypeError)"

text \<open>
  \<open>v => v > 0 ? v : null\<close> over the samples. \<open>None\<close>: a sample is a string, an array or an
  object, whose comparison goes through ToNumber of its text (not modelled).
\<close>

fun chart_points :: "jsval list \<Rightarrow> jsval list option" where
  "chart_points [] = Some []"
| "chart_points (v # vs) =
     (case to_number v of
        None \<Rightarrow> None
      | Some n \<Rightarrow> map_option (\<lambda>ps. (if js_positive n then v else JNull) # ps) (chart_points vs))"

text \<open>
  The \<open>pitch\<close> case of \<open>getChartData\<close>. \<open>Inr None\<close> is the \<open>null\<close> returned when
  \<open>features.pitch\<close> or its \<open>values\<close> is falsy. An array in the place of
  \<open>features.pitch\<close> has the method \<open>values\<close>, which has no \<open>map\<close>: a TypeError, as for
  any other \<open>values\<close> that is not an array. The labels are computed before the points.
  The outer \<open>None\<close> is that of \<open>chart_points\<close>.
\<close>

definition getChartData_pitch :: "jsval \<Rightarrow> (js_error + line_chart option) option" where
  "getChartData_pitch pitch =
     (if \<not> truthy pitch then Some (Inr None)
      else (case pitch of
          JArr xs \<Rightarrow> Some (Inl TypeError)
        | _ \<Rightarrow> (let vals = opt_prop pitch ''values'' in
            if \<not> truthy vals then Some (Inr None)
            else (case pitch_labels (opt_prop pitch ''time'') of
                Inl e \<Rightarrow> Some (Inl e)
              | Inr labels \<Rightarrow> (case vals of
                    JArr vs \<Rightarrow> map_option
                      (\<lambda>ps. Inr (Some \<lparr> lc_labels = labels, lc_name = ''Pitch (Hz)'',
                                         lc_data = ps \<rparr>))
                      (chart_points vs)
                  | _ \<Rightarrow> Some (Inl TypeError))))))"

section \<open>The pitch statistics of the acoustic extractor\<close>

text \<open>
  The Acoustic Feature Extractor runs on the server and is not among the sources; the
  client above only displays what it sent. Its pitch statistics are taken from the
  spec (section 4.2): the buffer is framed, each frame is classified voiced or
  unvoiced by an energy threshold, a pitch tracker over the voiced frames gives the
  pitch contour, and the pitch statistics are the mean, the standard deviation, the
  minimum, the maximum and the voiced-frame ratio. The threshold and the neutral
  value, which the spec leaves open, are parameters.
\<close>

text \<open>
  Modelled from the spec: a frame of the framed buffer, which the missing extractor
  works on, kept as its RMS energy and the pitch the tracker finds in it.
\<close>

record audio_frame =
  af_rms :: real
  af_pitch :: real

text \<open>
  Modelled from the spec: the voiced/unvoiced classification of the missing extractor,
  "classify each frame voiced/unvoiced via energy threshold".
\<close>

definition voiced :: "real \<Rightarrow> audio_frame \<Rightarrow> bool" where
  "voiced threshold f = (threshold < af_rms f)"

text \<open>
  Modelled from the spec: the pitch contour of the missing extractor, the tracker's
  pitch over the voiced frames.
\<close>

definition pitch_contour :: "real \<Rightarrow> audio_frame list \<Rightarrow> real list" where
  "pitch_contour threshold fs = map af_pitch (filter (voiced threshold) fs)"

text \<open>
  Modelled from the spec: the voiced-frame ratio of the missing extractor, voiced
  frames over all frames (0 for a buffer without frames).
\<close>

definition voiced_ratio :: "real \<Rightarrow> audio_frame list \<Rightarrow> real" where
  "voiced_ratio threshold fs =
     (if fs = [] then 0 else real (length (filter (voiced threshold) fs)) / real (length fs))"

text \<open>
  Modelled from the spec: the mean that the missing extractor takes of a contour, the
  "mean" of the pitch statistics.
\<close>

definition mean_of :: "real list \<Rightarrow> real" where
  "mean_of xs = sum_list xs / real (length xs)"

text \<open>
  Modelled from the spec: the standard deviation that the missing extractor takes of a
  contour, the "stdev" of the pitch statistics.
\<close>

definition stdev_of :: "real list \<Rightarrow> real" where
  "stdev_of xs = sqrt (mean_of (map (\<lambda>x. (x - mean_of xs)\<^sup>2) xs))"

text \<open>
  Modelled from the spec: the pitch part of the AcousticFeatureSet that the missing
  extractor returns, "pitch statistics (mean, stdev, min/max, voiced-frame ratio)" and
  "an insufficient_signal flag". A statistic is a real number: there is no NaN and no
  undefined among its values.
\<close>

record pitch_features =
  pf_mean :: real
  pf_stdev :: real
  pf_min :: real
  pf_max :: real
  pf_voiced_ratio :: real
  pf_insufficient_signal :: bool

text \<open>
  Modelled from the spec: the pitch statistics of the missing extractor, with its edge
  case "if voiced-frame ratio is 0 (pure silence/noise), set insufficient_signal=true
  and all pitch statistics to a defined neutral value (not NaN, not a thrown error)".
\<close>

definition extract_pitch :: "real \<Rightarrow> real \<Rightarrow> audio_frame list \<Rightarrow> pitch_features" where
  "extract_pitch threshold neutral fs =
     (let contour = pitch_contour threshold fs; ratio = voiced_ratio threshold fs in
      if ratio = 0
      then \<lparr> pf_mean = neutral, pf_stdev = neutral, pf_min = neutral, pf_max = neutral,
             pf_voiced_ratio = neutral, pf_insufficient_signal = True \<rparr>
      else \<lparr> pf_mean = mean_of contour, pf_stdev = stdev_of contour,
             pf_min = Min (set contour), pf_max = Max (set contour),
             pf_voiced_ratio = ratio, pf_insufficient_signal = False \<rparr>)"

section \<open>localStorage and the Dashboard statistics\<close>

text \<open>
  A key of localStorage holds text. The text is kept by what \<open>JSON.parse\<close> makes of it:
  the empty text, text that does not parse, or a value.
\<close>

datatype stored = EmptyText | Unparsable | Json jsval

type_synonym storage = "string \<Rightarrow> stored option"

text \<open>\<open>JSON.parse(localStorage.getItem(key) || '[]')\<close>.\<close>

definition parse_or_empty :: "storage \<Rightarrow> string \<Rightarrow> js_error + jsval" where
  "parse_or_empty ls key = (case ls key of
      None \<Rightarrow> Inr (JArr [])
    | Some EmptyText \<Rightarrow> Inr (JArr [])
    | Some Unparsable \<Rightarrow> Inl SyntaxError
    | Some (Json v) \<Rightarrow> Inr v)"

text \<open>
  The Dashboard that reads \<open>interview_history\<close> (the component importing
  \<open>getCurrentUser\<close> from utils/auth). Its effect loads the history once; the
  statistics and the list of recent interviews are computed from the loaded value.
\<close>

definition Dashboard_history :: "storage \<Rightarrow> js_error + jsval" where
  "Dashboard_history ls = parse_or_empty ls ''interview_history''"

text \<open>
  \<open>acc + (curr.score || 75)\<close> for a numeric accumulator. \<open>Inr None\<close>: the score is a
  string, an array or an object, and \<open>+\<close> concatenates text (not modelled).
\<close>

definition add_score :: "jsnum \<Rightarrow> jsval \<Rightarrow> js_error + jsnum option" where
  "add_score acc item = (case get_prop item ''score'' of
      Inl e \<Rightarrow> Inl e
    | Inr s \<Rightarrow> (case or_else s (JNum 75) of
          JNum r \<Rightarrow> Inr (Some (js_add acc (to_double r)))
        | JBool b \<Rightarrow> Inr (Some (js_add acc (Fin 1)))
        | _ \<Rightarrow> Inr None))"

text \<open>
  \<open>reduce((acc, curr) => acc + (curr.score || 75), 0)\<close>. Once the accumulator is text
  the remaining items are still read, so a later \<open>null\<close> item still throws.
\<close>

fun sum_scores :: "jsnum \<Rightarrow> jsval list \<Rightarrow> js_error + jsnum option" where
  "sum_scores acc [] = Inr (Some acc)"
| "sum_scores acc (x # xs) = (case add_score acc x of
      Inl e \<Rightarrow> Inl e
    | Inr None \<Rightarrow> (case sum_scores (Fin 0) xs of Inl e \<Rightarrow> Inl e | Inr _ \<Rightarrow> Inr None)
    | Inr (Some a) \<Rightarrow> sum_scores a xs)"

datatype average_score = NoInterviews | Percent jsnum | TextResult

record recent_interview =
  ri_position :: jsval
  ri_date :: jsval
  ri_score :: jsval

definition recent_row :: "jsval \<Rightarrow> js_error + recent_interview" where
  "recent_row interview = (case get_prop interview ''position'' of
      Inl e \<Rightarrow> Inl e
    | Inr p \<Rightarrow> Inr \<lparr> ri_position = or_else p (JStr ''Software Engineer''),
                     ri_date = or_else (opt_prop interview ''date'') (JStr ''Today''),
                     ri_score = or_else (opt_prop interview ''score'') (JNum 75) \<rparr>)"

fun recent_rows :: "jsval list \<Rightarrow> js_error + recent_interview list" where
  "recent_rows [] = Inr []"
| "recent_rows (x # xs) = (case recent_row x of
      Inl e \<Rightarrow> Inl e
    | Inr r \<Rightarrow> (case recent_rows xs of Inl e \<Rightarrow> Inl e | Inr rs \<Rightarrow> Inr (r # rs)))"

record dashboard_view =
  dv_total_interviews :: nat
  dv_average_score :: average_score
  dv_time_practiced :: nat
  dv_recent :: "recent_interview list"

text \<open>
  The statistics cards and the recent list for a loaded history. A history that is
  not an array makes \<open>slice(-5).reverse()\<close> throw.
\<close>

definition Dashboard_stats :: "jsval \<Rightarrow> js_error + dashboard_view" where
  "Dashboard_stats interviewHistory = (case interviewHistory of
      JArr hs \<Rightarrow>
        (case (if hs = [] then Inr NoInterviews
               else (case sum_scores (Fin 0) hs of
                   Inl e \<Rightarrow> Inl e
                 | Inr None \<Rightarrow> Inr TextResult
                 | Inr (Some sum_total) \<Rightarrow>
                     Inr (Percent (Math_round (js_div sum_total (Fin (of_nat (length hs)))))))) of
           Inl e \<Rightarrow> Inl e
         | Inr avg \<Rightarrow> (case recent_rows (rev (drop (length hs - 5) hs)) of
               Inl e \<Rightarrow> Inl e
             | Inr rows \<Rightarrow> Inr \<lparr> dv_total_interviews = length hs, dv_average_score = avg,
                   dv_time_practiced = length hs * 15, dv_recent = rows \<rparr>))
    | _ \<Rightarrow> Inl TypeError)"

text \<open>What the Dashboard shows for a given localStorage.\<close>

definition Dashboard :: "storage \<Rightarrow> js_error + dashboard_view" where
  "Dashboard ls = (case Dashboard_history ls of Inl e \<Rightarrow> Inl e | Inr h \<Rightarrow> Dashboard_stats h)"

section \<open>The interview flow (frontend/src/components/InterviewInterface.js)\<close>

text \<open>
  The component is modelled as a state machine: its React state, the closures that
  pending asynchronous work holds, and what it has done to the outside (the requests
  sent, the alerts shown, localStorage). An event is a click that the rendered page
  offers, a timer that fires, or a request that settles.
\<close>

datatype step = Form | Interview | Processing | Results

record form_data =
  fd_name :: string
  fd_email :: string
  fd_position :: string
  fd_experience :: string
  fd_jd :: string

datatype form_field = FName | FEmail | FPosition | FExperience | FJd

text \<open>
  A recording: the bytes of the Blob and the length of the recorded media. The code
  never reads the length.
\<close>

record blob =
  bytes :: "nat list"
  duration_ms :: nat

text \<open>The requests the component sends; a session id \<open>None\<close> is \<open>null\<close>.\<close>

datatype request =
    GenerateQuestions form_data
  | UploadVideo "string option" nat blob
  | AcousticFeatures "string option" nat
  | Finalize "string option"

text \<open>
  How a \<open>fetch\<close> settles: the promise rejects, or it resolves with \<open>response.ok\<close> and
  a body that \<open>response.json()\<close> rejects or parses.
\<close>

datatype 'a outcome = NetworkError | NotJson bool | Body bool 'a

text \<open>The two properties \<open>generateQuestions\<close> reads from its reply.\<close>

record generated =
  gen_questions :: "string list"
  gen_session_id :: "string option"

text \<open>What the continuation of \<open>finalizeInterview\<close> closed over when it was called.\<close>

record finalize_closure =
  fc_sessionId :: "string option"
  fc_position :: string
  fc_questions :: nat
  fc_acousticData :: "(string \<times> jsval) list"

record ui =
  step :: step
  formData :: form_data
  questions :: "string list"
  currentQuestionIndex :: nat
  isRecording :: bool
  recordedVideos :: "nat \<Rightarrow> blob option"
  sessionId :: "string option"
  isGeneratingQuestions :: bool
  isUploading :: bool
  recordingTime :: nat
  processingProgress :: nat
  acousticData :: "(string \<times> jsval) list"
  mediaRecorder :: "(nat \<times> string option) option"
  progressInterval :: bool
  pendingGenerate :: bool
  pendingUploads :: "(string option \<times> nat) list"
  pendingTimers :: "(string option \<times> nat) list"
  pendingAcoustic :: "nat list"
  pendingFinalize :: "finalize_closure option"
  pendingResults :: bool
  outbox :: "request list"
  alerts :: "string list"
  localStorage :: storage

text \<open>
  \<open>mediaRecorder\<close> is \<open>mediaRecorderRef.current\<close> with what its \<open>onstop\<close> handler
  closed over: the question index and the session id of the render in which
  \<open>startRecording\<close> ran. A pending upload and a pending 3 s timer hold the session id
  and index of their \<open>uploadVideo\<close> call.
\<close>

definition initial :: "string \<Rightarrow> string \<Rightarrow> storage \<Rightarrow> ui" where
  "initial full_name user_email ls = \<lparr>
     step = Form,
     formData = \<lparr> fd_name = full_name, fd_email = user_email, fd_position = [],
                  fd_experience = [], fd_jd = [] \<rparr>,
     questions = [], currentQuestionIndex = 0, isRecording = False,
     recordedVideos = (\<lambda>i. None), sessionId = None, isGeneratingQuestions = False,
     isUploading = False, recordingTime = 0, processingProgress = 0, acousticData = [],
     mediaRecorder = None, progressInterval = False, pendingGenerate = False,
     pendingUploads = [], pendingTimers = [], pendingAcoustic = [],
     pendingFinalize = None, pendingResults = False, outbox = [], alerts = [],
     localStorage = ls \<rparr>"

definition handleInputChange :: "form_field \<Rightarrow> string \<Rightarrow> ui \<Rightarrow> ui" where
  "handleInputChange f v s = s\<lparr>formData := (case f of
      FName \<Rightarrow> (formData s)\<lparr>fd_name := v\<rparr>
    | FEmail \<Rightarrow> (formData s)\<lparr>fd_email := v\<rparr>
    | FPosition \<Rightarrow> (formData s)\<lparr>fd_position := v\<rparr>
    | FExperience \<Rightarrow> (formData s)\<lparr>fd_experience := v\<rparr>
    | FJd \<Rightarrow> (formData s)\<lparr>fd_jd := v\<rparr>)\<rparr>"

text \<open>\<open>generateQuestions\<close> up to its first \<open>await\<close>.\<close>

definition generateQuestions :: "ui \<Rightarrow> ui" where
  "generateQuestions s = s\<lparr> isGeneratingQuestions := True, pendingGenerate := True,
     outbox := outbox s @ [GenerateQuestions (formData s)] \<rparr>"

text \<open>
  The rest of \<open>generateQuestions\<close>: any reply that parses starts the interview, with no
  look at \<open>response.ok\<close>. Only the questions, the session id and the step are set.
\<close>

definition generateQuestions_settled :: "generated outcome \<Rightarrow> ui \<Rightarrow> ui" where
  "generateQuestions_settled r s =
     (case r of
        Body ok d \<Rightarrow> s\<lparr> questions := gen_questions d, sessionId := gen_session_id d,
                         step := Interview \<rparr>
      | _ \<Rightarrow> s\<lparr> alerts := alerts s @ [''Error generating questions''] \<rparr>)
     \<lparr> isGeneratingQuestions := False, pendingGenerate := False \<rparr>"

text \<open>\<open>startRecording\<close>; \<open>granted\<close> tells whether the camera and the recorder were obtained.\<close>

definition startRecording :: "bool \<Rightarrow> ui \<Rightarrow> ui" where
  "startRecording granted s =
     (if granted
      then s\<lparr> mediaRecorder := Some (currentQuestionIndex s, sessionId s), isRecording := True \<rparr>
      else s\<lparr> alerts := alerts s @ [''Error accessing camera''] \<rparr>)"

text \<open>\<open>uploadVideo\<close> up to its \<open>await fetch\<close>, for the session id its closure holds.\<close>

definition uploadVideo :: "string option \<Rightarrow> blob \<Rightarrow> nat \<Rightarrow> ui \<Rightarrow> ui" where
  "uploadVideo sid b questionIndex s = s\<lparr> isUploading := True,
     outbox := outbox s @ [UploadVideo sid questionIndex b],
     pendingUploads := pendingUploads s @ [(sid, questionIndex)] \<rparr>"

text \<open>\<open>mediaRecorder.onstop\<close>: the Blob is kept under the index and uploaded.\<close>

definition onstop :: "nat \<times> string option \<Rightarrow> blob \<Rightarrow> ui \<Rightarrow> ui" where
  "onstop closure b s =
     uploadVideo (snd closure) b (fst closure)
       (s\<lparr> recordedVideos := (recordedVideos s)(fst closure := Some b) \<rparr>)"

text \<open>
  \<open>stopRecording\<close> with the \<open>onstop\<close> it triggers; \<open>b\<close> is the Blob of the chunks
  recorded so far. Leaving the recording state resets the timer (the effect on
  \<open>isRecording\<close>).
\<close>

definition stopRecording :: "blob \<Rightarrow> ui \<Rightarrow> ui" where
  "stopRecording b s = (case mediaRecorder s of
      Some closure \<Rightarrow>
        (if isRecording s then (onstop closure b s)\<lparr> isRecording := False, recordingTime := 0 \<rparr>
         else s)
    | None \<Rightarrow> s)"

text \<open>Removing the \<open>k\<close>-th entry of a list of pending work.\<close>

definition remove_nth :: "nat \<Rightarrow> 'a list \<Rightarrow> 'a list" where
  "remove_nth k xs = take k xs @ drop (Suc k) xs"

text \<open>
  The rest of \<open>uploadVideo\<close> for the \<open>k\<close>-th pending upload: a reply that parses is
  logged as a success, whatever its status or body, and \<open>loadAcousticFeatures\<close> is
  scheduled 3 s later; anything else raises an alert. Either way the upload flag drops.
\<close>

definition uploadVideo_settled :: "nat \<Rightarrow> jsval outcome \<Rightarrow> ui \<Rightarrow> ui" where
  "uploadVideo_settled k r s =
     (case r of
        Body ok d \<Rightarrow> s\<lparr> pendingTimers := pendingTimers s @ [pendingUploads s ! k] \<rparr>
      | _ \<Rightarrow> s\<lparr> alerts := alerts s @ [''Error uploading video''] \<rparr>)
     \<lparr> isUploading := False, pendingUploads := remove_nth k (pendingUploads s) \<rparr>"

text \<open>\<open>loadAcousticFeatures\<close> up to its \<open>await fetch\<close>, when the \<open>k\<close>-th timer fires.\<close>

definition loadAcousticFeatures :: "nat \<Rightarrow> ui \<Rightarrow> ui" where
  "loadAcousticFeatures k s = s\<lparr>
     outbox := outbox s @ [AcousticFeatures (fst (pendingTimers s ! k)) (snd (pendingTimers s ! k))],
     pendingAcoustic := pendingAcoustic s @ [snd (pendingTimers s ! k)],
     pendingTimers := remove_nth k (pendingTimers s) \<rparr>"

text \<open>
  The rest of \<open>loadAcousticFeatures\<close>: only a reply with \<open>response.ok\<close> whose body parses
  is stored, under the question index.
\<close>

definition loadAcousticFeatures_settled :: "nat \<Rightarrow> jsval outcome \<Rightarrow> ui \<Rightarrow> ui" where
  "loadAcousticFeatures_settled k r s =
     (case r of
        Body ok d \<Rightarrow>
          (if ok then s\<lparr> acousticData :=
                         set_prop (show_nat (pendingAcoustic s ! k)) d (acousticData s) \<rparr>
           else s)
      | _ \<Rightarrow> s)
     \<lparr> pendingAcoustic := remove_nth k (pendingAcoustic s) \<rparr>"

text \<open>\<open>finalizeInterview\<close> up to its \<open>await fetch\<close>.\<close>

definition finalizeInterview :: "ui \<Rightarrow> ui" where
  "finalizeInterview s = s\<lparr> step := Processing, processingProgress := 0,
     progressInterval := True,
     outbox := outbox s @ [Finalize (sessionId s)],
     pendingFinalize := Some \<lparr> fc_sessionId = sessionId s,
        fc_position = fd_position (formData s), fc_questions = length (questions s),
        fc_acousticData = acousticData s \<rparr> \<rparr>"

text \<open>\<open>nextQuestion\<close>: \<open>currentQuestionIndex < questions.length - 1\<close> on JS numbers.\<close>

definition nextQuestion :: "ui \<Rightarrow> ui" where
  "nextQuestion s =
     (if int (currentQuestionIndex s) < int (length (questions s)) - 1
      then s\<lparr> currentQuestionIndex := currentQuestionIndex s + 1 \<rparr>
      else finalizeInterview s)"

text \<open>The callback of the 2 s progress interval.\<close>

definition progress_tick :: "ui \<Rightarrow> ui" where
  "progress_tick s = s\<lparr> processingProgress :=
     (if 90 \<le> processingProgress s then processingProgress s else processingProgress s + 5) \<rparr>"

text \<open>The object \<open>finalizeInterview\<close> saves; \<open>stamp\<close> is \<open>new Date().toISOString()\<close>.\<close>

definition sessionData :: "finalize_closure \<Rightarrow> string \<Rightarrow> jsval" where
  "sessionData c stamp = JObj [
     (''sessionId'', (case fc_sessionId c of None \<Rightarrow> JNull | Some i \<Rightarrow> JStr i)),
     (''position'', JStr (fc_position c)),
     (''timestamp'', JStr stamp),
     (''questions'', JNum (of_nat (fc_questions c))),
     (''acousticData'', JObj (fc_acousticData c))]"

text \<open>
  "Save session to history": read \<open>sessionHistory\<close>, \<open>unshift\<close> the session, write it
  back. \<open>JSON.parse\<close> throws on text that does not parse and \<open>unshift\<close> is missing on
  anything but an array.
\<close>

definition save_session :: "jsval \<Rightarrow> storage \<Rightarrow> js_error + storage" where
  "save_session entry ls = (case parse_or_empty ls ''sessionHistory'' of
      Inl e \<Rightarrow> Inl e
    | Inr (JArr history) \<Rightarrow> Inr (ls(''sessionHistory'' \<mapsto> Json (JArr (entry # history))))
    | Inr _ \<Rightarrow> Inl TypeError)"

text \<open>
  The rest of \<open>finalizeInterview\<close>. A reply that parses, whatever its status, stops the
  interval, sets the progress to 100, saves the session and schedules the results
  page 500 ms later; an exception anywhere in the try block stops the interval and
  raises an alert, and the step stays where it is.
\<close>

definition finalizeInterview_settled :: "finalize_closure \<Rightarrow> jsval outcome \<Rightarrow> string \<Rightarrow> ui \<Rightarrow> ui" where
  "finalizeInterview_settled c r stamp s =
     (case r of
        Body ok d \<Rightarrow>
          (case save_session (sessionData c stamp) (localStorage s) of
             Inr ls \<Rightarrow> s\<lparr> processingProgress := 100, localStorage := ls, pendingResults := True \<rparr>
           | Inl e \<Rightarrow> s\<lparr> processingProgress := 100,
                          alerts := alerts s @ [''Error finalizing interview''] \<rparr>)
      | _ \<Rightarrow> s\<lparr> alerts := alerts s @ [''Error finalizing interview''] \<rparr>)
     \<lparr> progressInterval := False, pendingFinalize := None \<rparr>"

datatype event =
    InputChange form_field string
  | ClickGenerate
  | GenerateSettled "generated outcome"
  | ClickStart bool
  | ClickStop blob
  | RecordingTick
  | UploadSettled nat "jsval outcome"
  | AcousticTimer nat
  | AcousticSettled nat "jsval outcome"
  | ClickNext
  | ProgressTick
  | FinalizeSettled "jsval outcome" string
  | ResultsTimer
  | ClickNewInterview

text \<open>
  One event. \<open>None\<close>: the event cannot happen in this state (the button is not
  rendered or is disabled, no such timer or request is pending). The conditions are
  the ones of the JSX: the generate button is disabled while generating or while name,
  email or position is empty; "Start Recording" shows whenever nothing is being
  recorded and "Stop Recording" otherwise; the next button shows when the current
  index has a recording and no upload is running; "Start New Interview" shows on the
  results page.
\<close>

fun fire :: "event \<Rightarrow> ui \<Rightarrow> ui option" where
  "fire (InputChange f v) s = (if step s = Form then Some (handleInputChange f v s) else None)"
| "fire ClickGenerate s =
     (if step s = Form \<and> \<not> isGeneratingQuestions s \<and> fd_name (formData s) \<noteq> []
         \<and> fd_email (formData s) \<noteq> [] \<and> fd_position (formData s) \<noteq> []
      then Some (generateQuestions s) else None)"
| "fire (GenerateSettled r) s =
     (if pendingGenerate s then Some (generateQuestions_settled r s) else None)"
| "fire (ClickStart granted) s =
     (if step s = Interview \<and> \<not> isRecording s then Some (startRecording granted s) else None)"
| "fire (ClickStop b) s =
     (if step s = Interview \<and> isRecording s then Some (stopRecording b s) else None)"
| "fire RecordingTick s =
     (if isRecording s then Some (s\<lparr> recordingTime := recordingTime s + 1 \<rparr>) else None)"
| "fire (UploadSettled k r) s =
     (if k < length (pendingUploads s) then Some (uploadVideo_settled k r s) else None)"
| "fire (AcousticTimer k) s =
     (if k < length (pendingTimers s) then Some (loadAcousticFeatures k s) else None)"
| "fire (AcousticSettled k r) s =
     (if k < length (pendingAcoustic s) then Some (loadAcousticFeatures_settled k r s) else None)"
| "fire ClickNext s =
     (if step s = Interview \<and> recordedVideos s (currentQuestionIndex s) \<noteq> None \<and> \<not> isUploading s
      then Some (nextQuestion s) else None)"
| "fire ProgressTick s = (if progressInterval s then Some (progress_tick s) else None)"
| "fire (FinalizeSettled r stamp) s = (case pendingFinalize s of
      None \<Rightarrow> None
    | Some c \<Rightarrow> Some (finalizeInterview_settled c r stamp s))"
| "fire ResultsTimer s =
     (if pendingResults s then Some (s\<lparr> step := Results, pendingResults := False \<rparr>) else None)"
| "fire ClickNewInterview s = (if step s = Results then Some (s\<lparr> step := Form \<rparr>) else None)"

text \<open>A sequence of events, in order.\<close>

fun run :: "event list \<Rightarrow> ui \<Rightarrow> ui option" where
  "run [] s = Some s"
| "run (e # es) s = (case fire e s of None \<Rightarrow> None | Some s' \<Rightarrow> run es s')"

text \<open>
  For comparison, the "Start New Interview" button of the two interview components in
  App.js: besides returning to the form it resets the question index, the recordings,
  the form and the session id. The button of InterviewInterface.js only sets the step.
\<close>

definition startNewInterview_App :: "ui \<Rightarrow> ui" where
  "startNewInterview_App s = s\<lparr> step := Form, currentQuestionIndex := 0,
     recordedVideos := (\<lambda>i. None),
     formData := \<lparr> fd_name = [], fd_email = [], fd_position = [], fd_experience = [],
                   fd_jd = [] \<rparr>,
     sessionId := None \<rparr>"

text \<open>
  The order of session states, read on the requests the client sends: a session is in
  progress once an upload for its id was sent, and finalizing once its finalize
  request is sent. \<open>session_order\<close> holds of a list of requests when every finalize
  request comes after an upload for the same session id.
\<close>

definition uploaded_for :: "string option \<Rightarrow> request list \<Rightarrow> bool" where
  "uploaded_for sid reqs =
     list_ex (\<lambda>r. case r of UploadVideo sid' i b \<Rightarrow> sid' = sid | _ \<Rightarrow> False) reqs"

fun follows_order :: "request list \<Rightarrow> request list \<Rightarrow> bool" where
  "follows_order seen [] = True"
| "follows_order seen (r # rs) =
     ((case r of Finalize sid \<Rightarrow> uploaded_for sid seen | _ \<Rightarrow> True)
      \<and> follows_order (seen @ [r]) rs)"

definition session_order :: "request list \<Rightarrow> bool" where
  "session_order reqs = follows_order [] reqs"

text \<open>
  What holds of the component as long as "Start New Interview" is not pressed: the
  requests are in order; outside the form every kept recording was uploaded for the
  current session and a recorder holds the current session id; on the form nothing is
  recorded yet.
\<close>

definition first_interview :: "ui \<Rightarrow> bool" where
  "first_interview s =
     (session_order (outbox s)
      \<and> (step s = Form \<longrightarrow> (\<forall>i. recordedVideos s i = None) \<and> mediaRecorder s = None)
      \<and> ((\<exists>i. recordedVideos s i \<noteq> None) \<longrightarrow> uploaded_for (sessionId s) (outbox s))
      \<and> (\<forall>c. mediaRecorder s = Some c \<longrightarrow> snd c = sessionId s)
      \<and> (pendingGenerate s \<longrightarrow> step s = Form)
      \<and> (pendingFinalize s \<noteq> None \<longrightarrow> step s = Processing)
      \<and> (pendingResults s \<longrightarrow> step s = Processing \<and> pendingFinalize s = None))"

section \<open>Concrete runs\<close>

text \<open>
  A browser whose \<open>interview_history\<close> holds one past interview. A candidate fills in
  the position, obtains one question for session \<open>A\<close> and starts recording.
\<close>

definition past_interview :: jsval where
  "past_interview = JObj [(''sessionId'', JStr ''Z''), (''position'', JStr ''Analyst''),
     (''date'', JStr ''1/1/2024''), (''score'', JNum 80), (''questions'', JNum 5)]"

definition browser_storage :: storage where
  "browser_storage = (\<lambda>k. None)(''interview_history'' \<mapsto> Json (JArr [past_interview]))"

definition ann :: ui where
  "ann = initial ''Ann'' ''ann@example.org'' browser_storage"

definition session_A :: generated where
  "session_A = \<lparr> gen_questions = [''Tell me about yourself''], gen_session_id = Some ''A'' \<rparr>"

definition session_B :: generated where
  "session_B = \<lparr> gen_questions = [''Why this role?''], gen_session_id = Some ''B'' \<rparr>"

definition to_first_recording :: "event list" where
  "to_first_recording = [InputChange FPosition ''Engineer'', ClickGenerate,
     GenerateSettled (Body True session_A), ClickStart True]"

text \<open>A clip of 0.4 s, a full answer of 42 s and a second take of 30 s.\<close>

definition short_clip :: blob where
  "short_clip = \<lparr> bytes = [26, 69, 223, 163], duration_ms = 400 \<rparr>"

definition first_take :: blob where
  "first_take = \<lparr> bytes = [26, 69, 223, 163, 1], duration_ms = 42000 \<rparr>"

definition second_take :: blob where
  "second_take = \<lparr> bytes = [26, 69, 223, 163, 2], duration_ms = 30000 \<rparr>"

text \<open>A reply with status 400 whose body names the error.\<close>

definition too_short_reply :: "jsval outcome" where
  "too_short_reply = Body False (JObj [(''detail'', JStr ''InputTooShort'')])"

definition ok_reply :: "jsval outcome" where
  "ok_reply = Body True (JObj [(''status'', JStr ''ok'')])"

text \<open>What a run leaves behind, for the checks below.\<close>

definition sent :: "ui option \<Rightarrow> request list" where
  "sent r = (case r of None \<Rightarrow> [] | Some s \<Rightarrow> outbox s)"

definition shown :: "ui option \<Rightarrow> string list" where
  "shown r = (case r of None \<Rightarrow> [] | Some s \<Rightarrow> alerts s)"

definition kept :: "ui option \<Rightarrow> nat \<Rightarrow> blob option" where
  "kept r i = (case r of None \<Rightarrow> None | Some s \<Rightarrow> recordedVideos s i)"

definition at_step :: "ui option \<Rightarrow> step option" where
  "at_step r = map_option step r"

text \<open>One answer recorded and its upload acknowledged; then "Finish Interview".\<close>

definition to_first_upload :: "event list" where
  "to_first_upload = to_first_recording @ [ClickStop first_take, UploadSettled 0 ok_reply]"

definition to_processing :: "event list" where
  "to_processing = to_first_upload @ [ClickNext]"

definition stored_after :: "ui option \<Rightarrow> string \<Rightarrow> stored option" where
  "stored_after r k = (case r of None \<Rightarrow> None | Some s \<Rightarrow> localStorage s k)"

definition dashboard_after :: "ui option \<Rightarrow> (js_error + dashboard_view) option" where
  "dashboard_after r = map_option (\<lambda>s. Dashboard (localStorage s)) r"

definition ann_form :: form_data where
  "ann_form = \<lparr> fd_name = ''Ann'', fd_email = ''ann@example.org'', fd_position = ''Engineer'',
     fd_experience = [], fd_jd = [] \<rparr>"

text \<open>
  After session \<open>A\<close> is complete the candidate starts a new interview, obtains session
  \<open>B\<close> and presses the next button at once.
\<close>

definition second_interview :: "event list" where
  "second_interview = to_processing @ [FinalizeSettled ok_reply ''2024-01-01T00:00:00.000Z'',
     ResultsTimer, ClickNewInterview, ClickGenerate, GenerateSettled (Body True session_B),
     ClickNext]"

text \<open>
  None of the examples below carries a \<open>visualization\<close>, so rendering them parses
  nothing. Where a parser has to be named it is this one, which reads no text.
\<close>

definition reads_nothing :: "jsval \<Rightarrow> js_error + jsval" where
  "reads_nothing v = Inl SyntaxError"

text \<open>Analysis data built from its parts.\<close>

definition analysis_of :: "jsval list \<Rightarrow> jsval" where
  "analysis_of qs = JObj [(''question_analyses'', JArr qs)]"

definition question_entry :: "string \<Rightarrow> jsval \<Rightarrow> jsval \<Rightarrow> jsval" where
  "question_entry text speech video = JObj [(''question'', JStr text),
     (''speech_analysis'', speech), (''video_analysis'', video)]"

text \<open>
  A speech analysis of a voiced answer, one of silence carrying an
  \<open>insufficient_signal\<close> flag, a video analysis, and a fallback video analysis carrying
  a \<open>degraded\<close> flag.
\<close>

definition voiced_speech :: jsval where
  "voiced_speech = JObj [(''report'', JObj [
     (''pitch_analysis'', JObj [(''mean_pitch'', JNum 180)]),
     (''speech_timing'', JObj [(''speech_rate'', JNum (3 / 4))]),
     (''energy_analysis'', JObj [(''volume_consistency'', JStr ''high'')])])]"

definition silent_speech :: "bool \<Rightarrow> jsval" where
  "silent_speech flag = JObj [(''insufficient_signal'', JBool flag), (''report'', JObj [
     (''pitch_analysis'', JObj [(''mean_pitch'', JNum 0)])])]"

definition real_video :: jsval where
  "real_video = JObj [(''report'', JObj [
     (''emotion_analysis'', JObj [(''dominant_emotion'', JStr ''happy'')]),
     (''video_summary'', JObj [(''face_detection_rate'', JNum (7 / 8))])])]"

definition fallback_report :: jsval where
  "fallback_report = JObj [
     (''emotion_analysis'', JObj [(''dominant_emotion'', JStr ''neutral'')]),
     (''engagement_assessment'', JObj [(''engagement_score'', JNum 0)]),
     (''video_summary'', JObj [(''face_detection_rate'', JNum 0)])]"

definition fallback_video :: "bool \<Rightarrow> jsval" where
  "fallback_video flag = JObj [(''degraded'', JBool flag), (''report'', fallback_report)]"

text \<open>Three questions of which the third never received an upload.\<close>

definition three_questions :: "jsval list" where
  "three_questions = [question_entry ''Q1'' voiced_speech real_video,
     question_entry ''Q2'' voiced_speech real_video,
     question_entry ''Q3'' JNull JNull]"

text \<open>One question whose speech was analysed and whose video was not.\<close>

definition speech_only :: "jsval list" where
  "speech_only = [question_entry ''Q1'' voiced_speech JNull]"

text \<open>The pitch track of three silent frames, as \<open>features.pitch\<close> carries it.\<close>

definition silent_track :: jsval where
  "silent_track = JObj [(''time'', JArr [JNum 0, JNum (1 / 64), JNum (1 / 32)]),
     (''values'', JArr [JNum 0, JNull, JNum 0])]"

text \<open>Three frames of a silent buffer, and the threshold they are held against.\<close>

definition silent_buffer :: "audio_frame list" where
  "silent_buffer = [\<lparr> af_rms = 0, af_pitch = 0 \<rparr>, \<lparr> af_rms = 1 / 1000, af_pitch = 0 \<rparr>,
     \<lparr> af_rms = 0, af_pitch = 0 \<rparr>]"

definition energy_threshold :: real where
  "energy_threshold = 1 / 100"

text \<open>Two questions, neither of which was analysed.\<close>

definition unanswered :: "jsval list" where
  "unanswered = [question_entry ''Q1'' JNull JNull, question_entry ''Q2'' JNull JNull]"

section \<open>Properties of the number model\<close>

lemma floor_rat_numeral:
  "\<lfloor>(numeral a :: rat) / numeral b\<rfloor> = numeral a div numeral b"
  using floor_divide_of_int_eq [of "numeral a" "numeral b", where ?'a = rat] by simp

lemma ceiling_rat_numeral:
  "\<lceil>(numeral a :: rat) / numeral b\<rceil> = - (- numeral a div numeral b)"
  unfolding ceiling_def
  using floor_divide_of_int_eq [of "- numeral a" "numeral b", where ?'a = rat] by simp

text \<open>The rules that evaluate the rounding of a given number.\<close>

lemmas double_eval = to_double_def ilog2_def compute_bitlen Let_def pow2_def
  round_half_even_def floor_rat_numeral ceiling_rat_numeral

lemma pow2_pos: "0 < pow2 e"
  by (simp add: pow2_def)

lemma round_half_even_nonneg: "0 \<le> y \<Longrightarrow> 0 \<le> round_half_even y"
  by (simp add: round_half_even_def Let_def)

lemma to_double_zero: "to_double 0 = Fin 0"
  by (simp add: to_double_def)

text \<open>Rounding keeps the sign: what is not above 0 is not rounded to something above 0.\<close>

lemma to_double_not_positive:
  assumes "x \<le> 0"
  shows "\<not> js_positive (to_double x)"
proof (cases "x = 0")
  case True
  then show ?thesis by (simp add: to_double_zero)
next
  case False
  with assms have neg: "x < 0" by simp
  define e where "e = max (ilog2 \<bar>x\<bar> - 52) (- 1074)"
  define r where "r = rat_of_int (round_half_even (\<bar>x\<bar> / pow2 e)) * pow2 e"
  have "0 \<le> \<bar>x\<bar> / pow2 e" using pow2_pos [of e] by simp
  then have "0 \<le> r"
    unfolding r_def using round_half_even_nonneg pow2_pos [of e] by simp
  moreover have "to_double x = (if pow2 1024 \<le> r then NegInf else Fin (- r))"
    using neg by (simp add: to_double_def Let_def e_def r_def)
  ultimately show ?thesis by simp
qed

lemma pow2_powi: "pow2 e = 2 powi e"
  by (simp add: pow2_def power_int_def inverse_eq_divide power_one_over)

lemma pow2_shift: "pow2 (e - 52) = pow2 e / 2 ^ 52"
  unfolding pow2_powi by (simp add: power_int_diff)

lemma ilog2_le:
  assumes "0 < x"
  shows "pow2 (ilog2 x) \<le> x"
proof (cases "1 \<le> x")
  case True
  then have f: "0 < \<lfloor>x\<rfloor>" by simp
  from bitlen_bounds [OF f] have b: "2 ^ nat (bitlen \<lfloor>x\<rfloor> - 1) \<le> \<lfloor>x\<rfloor>" by simp
  have "0 \<le> bitlen \<lfloor>x\<rfloor> - 1" using f by (simp add: bitlen_alt_def)
  then have "pow2 (ilog2 x) = 2 ^ nat (bitlen \<lfloor>x\<rfloor> - 1)"
    using True by (simp add: ilog2_def pow2_def)
  also have "\<dots> = rat_of_int (2 ^ nat (bitlen \<lfloor>x\<rfloor> - 1))" by simp
  also have "\<dots> \<le> rat_of_int \<lfloor>x\<rfloor>" using b by (simp only: of_int_le_iff)
  also have "\<dots> \<le> x" by simp
  finally show ?thesis .
next
  case False
  define c where "c = \<lceil>1 / x\<rceil>"
  from False assms have "1 < 1 / x" by simp
  then have c2: "2 \<le> c" unfolding c_def by (simp add: less_ceiling_iff flip: ceiling_le_iff)
  then have p: "0 < c - 1" by simp
  from bitlen_bounds [OF p] have "c - 1 < 2 ^ nat (bitlen (c - 1))" by simp
  then have "c \<le> 2 ^ nat (bitlen (c - 1))" by simp
  then have "rat_of_int c \<le> rat_of_int (2 ^ nat (bitlen (c - 1)))" by (simp only: of_int_le_iff)
  then have u: "rat_of_int c \<le> 2 ^ nat (bitlen (c - 1))" by simp
  have "1 / x \<le> rat_of_int c" unfolding c_def by simp
  with u have "1 / x \<le> 2 ^ nat (bitlen (c - 1))" by linarith
  then have "1 / 2 ^ nat (bitlen (c - 1)) \<le> x"
    using assms by (simp add: field_simps)
  moreover have "0 < bitlen (c - 1)" using p by (simp add: bitlen_alt_def)
  ultimately show ?thesis using False by (simp add: ilog2_def pow2_def c_def)
qed

lemma round_half_even_near: "\<bar>rat_of_int (round_half_even y) - y\<bar> \<le> 1 / 2"
proof -
  have "rat_of_int \<lfloor>y\<rfloor> \<le> y" "y < rat_of_int \<lfloor>y\<rfloor> + 1" by linarith+
  then show ?thesis by (auto simp: round_half_even_def Let_def)
qed

text \<open>
  Away from the subnormal numbers and from overflow, rounding to a double moves a
  value by at most one part in \<open>2 ^ 53\<close>.
\<close>

lemma to_double_near:
  assumes "1 / 2 ^ 100 \<le> x" "x \<le> 200"
  shows "\<exists>d. to_double x = Fin d \<and> \<bar>d - x\<bar> \<le> x / 2 ^ 53"
proof -
  have pos: "0 < x" using assms(1) by (rule less_le_trans [rotated]) simp
  define e where "e = max (ilog2 x - 52) (- 1074)"
  define r where "r = rat_of_int (round_half_even (x / pow2 e)) * pow2 e"
  have pe: "pow2 e \<le> x / 2 ^ 52"
  proof (cases "- 1074 \<le> ilog2 x - 52")
    case True
    then have "e = ilog2 x - 52" unfolding e_def by (rule max_absorb1)
    then have "pow2 e = pow2 (ilog2 x) / 2 ^ 52" by (simp add: pow2_shift)
    with ilog2_le [OF pos] show ?thesis by (simp add: divide_right_mono)
  next
    case False
    then have "e = - 1074" unfolding e_def by (intro max_absorb2) simp
    then have "pow2 e = 1 / 2 ^ 1074" by (simp add: pow2_def)
    moreover have "(1::rat) / 2 ^ 1074 \<le> (1 / 2 ^ 100) / 2 ^ 52" by simp
    moreover have "(1 / 2 ^ 100) / 2 ^ 52 \<le> x / (2 ^ 52 :: rat)"
      using assms(1) by (rule divide_right_mono) simp
    ultimately show ?thesis by simp
  qed
  have "r - x = (rat_of_int (round_half_even (x / pow2 e)) - x / pow2 e) * pow2 e"
    using pow2_pos [of e] by (simp add: r_def field_simps)
  then have "\<bar>r - x\<bar> = \<bar>rat_of_int (round_half_even (x / pow2 e)) - x / pow2 e\<bar> * pow2 e"
    using pow2_pos [of e] by (simp add: abs_mult)
  also have "\<dots> \<le> 1 / 2 * pow2 e"
    using round_half_even_near [of "x / pow2 e"] pow2_pos [of e]
    by (intro mult_right_mono) simp_all
  also have "\<dots> \<le> 1 / 2 * (x / 2 ^ 52)" using pe by simp
  also have "\<dots> = x / 2 ^ 53" by simp
  finally have near: "\<bar>r - x\<bar> \<le> x / 2 ^ 53" .
  then have "r \<le> x + x / 2 ^ 53" by linarith
  also have "\<dots> \<le> 200 + 200 / 2 ^ 53" using assms(2) by (intro add_mono divide_right_mono) simp_all
  also have "\<dots> < pow2 1024" by (simp add: pow2_def)
  finally have "\<not> pow2 1024 \<le> r" by simp
  then have "to_double x = Fin r"
    using pos by (simp add: to_double_def Let_def e_def r_def)
  with near show ?thesis by blast
qed

text \<open>
  An integer that rounds a value lying within \<open>1 / 2 ^ 44\<close> of a fraction with a
  denominator below \<open>2 ^ 33\<close> is within one half of that fraction.
\<close>

lemma round_near_fraction:
  fixes T N :: int and d :: rat
  assumes N: "0 < N" "N < 2 ^ 33"
    and close: "\<bar>d - rat_of_int T / rat_of_int N\<bar> < 1 / 2 ^ 44"
  shows "\<bar>rat_of_int \<lfloor>d + 1 / 2\<rfloor> - rat_of_int T / rat_of_int N\<bar> \<le> 1 / 2"
proof -
  define k where "k = \<lfloor>d + 1 / 2\<rfloor>"
  define P where "P = rat_of_int T / rat_of_int N"
  have Npos: "0 < rat_of_int N" using N(1) by simp
  have NP: "P * rat_of_int N = rat_of_int T" using N(1) by (simp add: P_def)
  have k1: "rat_of_int k \<le> d + 1 / 2" and k2: "d + 1 / 2 < rat_of_int k + 1"
    unfolding k_def by linarith+
  have "rat_of_int N < rat_of_int (2 ^ 33)" using N(2) by (simp only: of_int_less_iff)
  then have "rat_of_int N < 2 ^ 33" by simp
  then have small: "1 / 2 ^ 44 * rat_of_int N < 1 / 2" by simp
  from close have c1: "d < P + 1 / 2 ^ 44" and c2: "P - 1 / 2 ^ 44 < d"
    unfolding P_def by linarith+
  have up: "rat_of_int k - 1 / 2 \<le> P"
  proof -
    from k1 c1 have "rat_of_int k - 1 / 2 < P + 1 / 2 ^ 44" by linarith
    then have "(rat_of_int k - 1 / 2) * rat_of_int N < (P + 1 / 2 ^ 44) * rat_of_int N"
      using Npos by (rule mult_strict_right_mono)
    also have "\<dots> = rat_of_int T + 1 / 2 ^ 44 * rat_of_int N"
      by (simp add: NP distrib_right)
    finally have "(rat_of_int k - 1 / 2) * rat_of_int N < rat_of_int T + 1 / 2"
      using small by linarith
    then have "rat_of_int ((2 * k - 1) * N) < rat_of_int (2 * T + 1)"
      by (simp add: algebra_simps)
    then have "(2 * k - 1) * N < 2 * T + 1" by (simp only: of_int_less_iff)
    then have "(2 * k - 1) * N \<le> 2 * T" by simp
    then have "rat_of_int ((2 * k - 1) * N) \<le> rat_of_int (2 * T)" by (simp only: of_int_le_iff)
    then have "(rat_of_int k - 1 / 2) * rat_of_int N \<le> P * rat_of_int N"
      by (simp add: NP algebra_simps)
    then show ?thesis using Npos by (simp only: mult_le_cancel_right_pos)
  qed
  have low: "P \<le> rat_of_int k + 1 / 2"
  proof -
    from k2 c2 have "P - 1 / 2 ^ 44 < rat_of_int k + 1 / 2" by linarith
    then have "(P - 1 / 2 ^ 44) * rat_of_int N < (rat_of_int k + 1 / 2) * rat_of_int N"
      using Npos by (rule mult_strict_right_mono)
    moreover have "(P - 1 / 2 ^ 44) * rat_of_int N = rat_of_int T - 1 / 2 ^ 44 * rat_of_int N"
      by (simp add: NP left_diff_distrib)
    ultimately have "rat_of_int T - 1 / 2 < (rat_of_int k + 1 / 2) * rat_of_int N"
      using small by linarith
    then have "rat_of_int (2 * T - 1) < rat_of_int ((2 * k + 1) * N)"
      by (simp add: algebra_simps)
    then have "2 * T - 1 < (2 * k + 1) * N" by (simp only: of_int_less_iff)
    then have "2 * T \<le> (2 * k + 1) * N" by simp
    then have "rat_of_int (2 * T) \<le> rat_of_int ((2 * k + 1) * N)" by (simp only: of_int_le_iff)
    then have "P * rat_of_int N \<le> (rat_of_int k + 1 / 2) * rat_of_int N"
      by (simp add: NP algebra_simps)
    then show ?thesis using Npos by (simp only: mult_le_cancel_right_pos)
  qed
  from up low show ?thesis unfolding k_def [symmetric] P_def [symmetric] by linarith
qed

section \<open>Properties of the local authentication\<close>

lemma findIndex_less: "findIndex P xs = Some i \<Longrightarrow> i < length xs"
  by (induction xs arbitrary: i) (auto split: if_splits option.splits)

lemma saveUser_users:
  assumes "getUsers st = Some us"
  shows "\<exists>vs. getUsers (saveUser u st) = Some vs \<and> u \<in> set vs"
proof (cases "findIndex (\<lambda>x. uid x = uid u) us")
  case None
  with assms show ?thesis by (simp add: saveUser_def getUsers_def)
next
  case (Some i)
  then have "i < length us" by (rule findIndex_less)
  then have "u \<in> set (us[i := u])" by (simp add: set_update_memI)
  with assms Some show ?thesis by (simp add: saveUser_def getUsers_def)
qed

lemma saveUser_auth_key: "auth_key (saveUser u st) = auth_key st"
  by (simp add: saveUser_def split: option.splits)

lemma find_Some_holds: "find P xs = Some x \<Longrightarrow> P x \<and> x \<in> set xs"
  by (induction xs) (auto split: if_splits)

text \<open>
  What a successful login leaves behind: a stored user with the given name and password
  whose public fields are the ones returned, and an auth session that expires exactly 24
  hours after the login.
\<close>

lemma loginUser_ok:
  assumes "loginUser t0 un pw st = (LoginOk usr, st')"
  shows "\<exists>us u. getUsers st' = Some us \<and> u \<in> set us \<and> username u = un \<and> password u = pw
           \<and> public_fields u = usr"
    and "auth_key st' = ASession \<lparr> ad_user = usr, loginTime = t0, expiresAt = t0 + day_ms \<rparr>"
proof -
  from assms obtain st1 us0 u where
    init: "initializeDefaultUser t0 st = Some st1" and
    us0: "getUsers st1 = Some us0" and
    found: "find (\<lambda>u. username u = un \<and> password u = pw) us0 = Some u" and
    usr: "usr = public_fields u" and
    st': "st' = (saveUser (u\<lparr>lastLogin := Some t0\<rparr>) st1)\<lparr>auth_key := ASession
             \<lparr> ad_user = public_fields u, loginTime = t0, expiresAt = t0 + day_ms \<rparr>\<rparr>"
    by (auto simp: loginUser_def Let_def split: option.splits if_splits)
  from found have pu: "username u = un \<and> password u = pw"
    using find_Some_holds [of "\<lambda>u. username u = un \<and> password u = pw" us0 u] by simp
  from saveUser_users [OF us0, of "u\<lparr>lastLogin := Some t0\<rparr>"] obtain vs where
    vs: "getUsers (saveUser (u\<lparr>lastLogin := Some t0\<rparr>) st1) = Some vs"
        "u\<lparr>lastLogin := Some t0\<rparr> \<in> set vs" by blast
  have "getUsers st' = Some vs" using vs(1) st' by (simp add: getUsers_def)
  moreover have "public_fields (u\<lparr>lastLogin := Some t0\<rparr>) = usr"
    using usr by (simp add: public_fields_def)
  ultimately show "\<exists>us u. getUsers st' = Some us \<and> u \<in> set us \<and> username u = un
      \<and> password u = pw \<and> public_fields u = usr"
    using vs(2) pu by (intro exI [of _ vs] exI [of _ "u\<lparr>lastLogin := Some t0\<rparr>"]) simp
  show "auth_key st' = ASession \<lparr> ad_user = usr, loginTime = t0, expiresAt = t0 + day_ms \<rparr>"
    using st' usr by simp
qed

text \<open>
  C9. After a successful \<open>loginUser un pw\<close> at time \<open>t0\<close>, some stored user has this name
  and password and the public fields (id, username, email, fullName, role) that were
  returned; at every time \<open>t\<close> up to \<open>t0\<close> + 24 h \<open>getCurrentUser\<close> returns exactly these
  fields and leaves the store alone; at every later time it returns null and removes
  the stored auth session.
\<close>

theorem C9_session_valid_for_24_hours:
  assumes "loginUser t0 un pw st = (LoginOk usr, st')"
  shows "(\<exists>us u. getUsers st' = Some us \<and> u \<in> set us \<and> username u = un \<and> password u = pw
            \<and> au_id usr = uid u \<and> au_username usr = username u \<and> au_email usr = email u
            \<and> au_fullName usr = fullName u \<and> au_role usr = role u)
       \<and> (\<forall>t. t \<le> t0 + day_ms \<longrightarrow> getCurrentUser t st' = (Some usr, st'))
       \<and> (\<forall>t. t0 + day_ms < t \<longrightarrow>
             getCurrentUser t st' = (None, st'\<lparr>auth_key := AAbsent\<rparr>))"
proof (intro conjI allI impI)
  from loginUser_ok(1) [OF assms] obtain us u where
    "getUsers st' = Some us" "u \<in> set us" "username u = un" "password u = pw"
    "public_fields u = usr" by blast
  then show "\<exists>us u. getUsers st' = Some us \<and> u \<in> set us \<and> username u = un \<and> password u = pw
      \<and> au_id usr = uid u \<and> au_username usr = username u \<and> au_email usr = email u
      \<and> au_fullName usr = fullName u \<and> au_role usr = role u"
    by (intro exI [of _ us] exI [of _ u]) (auto simp: public_fields_def)
next
  fix t assume "t \<le> t0 + day_ms"
  with loginUser_ok(2) [OF assms] show "getCurrentUser t st' = (Some usr, st')"
    by (simp add: getCurrentUser_def)
next
  fix t assume "t0 + day_ms < t"
  with loginUser_ok(2) [OF assms]
  show "getCurrentUser t st' = (None, st'\<lparr>auth_key := AAbsent\<rparr>)"
    by (simp add: getCurrentUser_def logoutUser_def)
qed

lemma login_admin:
  "loginUser 1000 ''admin'' ''admin123'' empty_store = (LoginOk admin_public, admin_logged_in)"
  by (simp add: loginUser_def initializeDefaultUser_def getUsers_def saveUser_def
      empty_store_def defaultUser_def public_fields_def admin_public_def admin_logged_in_def
      max_time_ms_def day_ms_def Let_def)

theorem C9_session_valid_for_24_hours_witness:
  "loginUser 1000 ''admin'' ''admin123'' empty_store = (LoginOk admin_public, admin_logged_in)
   \<and> getCurrentUser (1000 + day_ms) admin_logged_in = (Some admin_public, admin_logged_in)
   \<and> getCurrentUser (1001 + day_ms) admin_logged_in
       = (None, admin_logged_in\<lparr>auth_key := AAbsent\<rparr>)"
  using C9_session_valid_for_24_hours [OF login_admin] login_admin by simp

section \<open>Properties of the interview flow\<close>

lemmas handlers = handleInputChange_def generateQuestions_def generateQuestions_settled_def
  startRecording_def uploadVideo_def onstop_def stopRecording_def uploadVideo_settled_def
  loadAcousticFeatures_def loadAcousticFeatures_settled_def finalizeInterview_def
  nextQuestion_def progress_tick_def finalizeInterview_settled_def remove_nth_def

lemmas examples = to_first_recording_def ann_def initial_def session_A_def session_B_def
  short_clip_def first_take_def second_take_def too_short_reply_def ok_reply_def
  sent_def shown_def kept_def at_step_def to_first_upload_def to_processing_def
  browser_storage_def
  past_interview_def stored_after_def dashboard_after_def ann_form_def second_interview_def

lemma run_append:
  "run (xs @ ys) s = (case run xs s of None \<Rightarrow> None | Some s' \<Rightarrow> run ys s')"
  by (induction xs arbitrary: s) (auto split: option.splits)

text \<open>The state in which the first recording of session \<open>A\<close> is running.\<close>

lemma first_recording_state:
  "\<exists>s1. run to_first_recording ann = Some s1 \<and> step s1 = Interview \<and> isRecording s1
     \<and> mediaRecorder s1 = Some (0, Some ''A'') \<and> pendingUploads s1 = []
     \<and> pendingTimers s1 = [] \<and> outbox s1 = [GenerateQuestions ann_form] \<and> alerts s1 = []"
  by (simp add: handlers examples)

text \<open>The state in which the first answer of session \<open>A\<close> is uploaded.\<close>

lemma first_upload_state:
  "\<exists>s1. run to_first_upload ann = Some s1
     \<and> step s1 = Interview \<and> \<not> isRecording s1 \<and> currentQuestionIndex s1 = 0
     \<and> sessionId s1 = Some ''A'' \<and> recordedVideos s1 0 = Some first_take
     \<and> outbox s1 = [GenerateQuestions ann_form, UploadVideo (Some ''A'') 0 first_take]
     \<and> alerts s1 = [] \<and> \<not> isUploading s1"
  by (simp add: handlers examples)

text \<open>
  C1 (amended). The client has no minimum duration. Whatever the recording \<open>b\<close> and its
  \<open>duration_ms\<close>: stopping the recorder keeps \<open>b\<close> under the question index the
  recorder holds and sends it to the upload endpoint, without an alert; and once any
  reply that parses arrives, whatever its status \<open>ok\<close> and body \<open>d\<close>, the 3 s timer
  requests the acoustic features of that recording.
\<close>

theorem C1_recording_is_stored_and_sent:
  assumes "step s = Interview" "isRecording s" "mediaRecorder s = Some (i, sid)"
  shows "\<exists>s'. run [ClickStop b, UploadSettled (length (pendingUploads s)) (Body ok d),
                    AcousticTimer (length (pendingTimers s))] s = Some s'
           \<and> recordedVideos s' i = Some b
           \<and> outbox s' = outbox s @ [UploadVideo sid i b, AcousticFeatures sid i]
           \<and> alerts s' = alerts s"
  using assms by (simp add: handlers nth_append)

theorem C1_recording_is_stored_and_sent_witness:
  "at_step (run to_first_recording ann) = Some Interview
   \<and> map_option isRecording (run to_first_recording ann) = Some True
   \<and> map_option mediaRecorder (run to_first_recording ann) = Some (Some (0, Some ''A''))
   \<and> kept (run (to_first_recording @ [ClickStop first_take, UploadSettled 0 ok_reply,
        AcousticTimer 0]) ann) 0 = Some first_take
   \<and> sent (run (to_first_recording @ [ClickStop first_take, UploadSettled 0 ok_reply,
        AcousticTimer 0]) ann)
      = [GenerateQuestions ann_form, UploadVideo (Some ''A'') 0 first_take,
         AcousticFeatures (Some ''A'') 0]"
proof -
  from first_recording_state obtain s1 where s1: "run to_first_recording ann = Some s1"
    "step s1 = Interview" "isRecording s1" "mediaRecorder s1 = Some (0, Some ''A'')"
    "pendingUploads s1 = []" "pendingTimers s1 = []" "outbox s1 = [GenerateQuestions ann_form]"
    by blast
  from C1_recording_is_stored_and_sent [OF s1(2,3,4), of first_take True
      "JObj [(''status'', JStr ''ok'')]"]
  obtain s' where s': "run [ClickStop first_take, UploadSettled 0 ok_reply, AcousticTimer 0] s1
      = Some s'" "recordedVideos s' 0 = Some first_take"
    "outbox s' = [GenerateQuestions ann_form, UploadVideo (Some ''A'') 0 first_take,
       AcousticFeatures (Some ''A'') 0]"
    using s1(5,6,7) by (auto simp: ok_reply_def)
  have "run (to_first_recording @ [ClickStop first_take, UploadSettled 0 ok_reply,
      AcousticTimer 0]) ann = Some s'"
    by (simp only: run_append s1(1) option.case s'(1))
  with s1 s' show ?thesis by (simp add: at_step_def kept_def sent_def)
qed

text \<open>
  C1, counterexample. A clip of 0.4 s is kept under question 0 and uploaded; the reply
  has status 400 and a body naming InputTooShort, and the client still shows no alert
  and goes on to request the acoustic features of the clip.
\<close>

theorem C1_short_clip_is_stored_and_sent:
  "duration_ms short_clip < 1000
   \<and> kept (run (to_first_recording @ [ClickStop short_clip, UploadSettled 0 too_short_reply,
        AcousticTimer 0]) ann) 0 = Some short_clip
   \<and> sent (run (to_first_recording @ [ClickStop short_clip, UploadSettled 0 too_short_reply,
        AcousticTimer 0]) ann)
      = [GenerateQuestions ann_form, UploadVideo (Some ''A'') 0 short_clip,
         AcousticFeatures (Some ''A'') 0]
   \<and> shown (run (to_first_recording @ [ClickStop short_clip, UploadSettled 0 too_short_reply,
        AcousticTimer 0]) ann) = []"
  by (simp add: handlers examples)

text \<open>
  C5 (amended). The client keeps one Blob per question index and lets the candidate
  record again. When the current question already has a recording \<open>b0\<close>, "Start
  Recording" is still offered, and stopping the new recording \<open>b\<close> replaces \<open>b0\<close> at
  that index, leaves the Blobs of the other indices alone and sends one more upload
  request for the same session and index, without an alert.
\<close>

theorem C5_second_recording_replaces_the_first:
  assumes "step s = Interview" "\<not> isRecording s"
    "recordedVideos s (currentQuestionIndex s) = Some b0"
  shows "\<exists>s'. run [ClickStart True, ClickStop b] s = Some s'
           \<and> recordedVideos s' (currentQuestionIndex s) = Some b
           \<and> (\<forall>j. j \<noteq> currentQuestionIndex s \<longrightarrow> recordedVideos s' j = recordedVideos s j)
           \<and> outbox s' = outbox s @ [UploadVideo (sessionId s) (currentQuestionIndex s) b]
           \<and> alerts s' = alerts s"
  using assms by (simp add: handlers)

theorem C5_second_recording_replaces_the_first_witness:
  "kept (run to_first_upload ann) 0 = Some first_take
   \<and> at_step (run to_first_upload ann) = Some Interview
   \<and> map_option isRecording (run to_first_upload ann) = Some False
   \<and> kept (run (to_first_upload @ [ClickStart True, ClickStop short_clip]) ann) 0
     = Some short_clip
   \<and> sent (run (to_first_upload @ [ClickStart True, ClickStop short_clip]) ann)
      = [GenerateQuestions ann_form, UploadVideo (Some ''A'') 0 first_take,
         UploadVideo (Some ''A'') 0 short_clip]"
proof -
  from first_upload_state obtain s1 where s1:
    "run to_first_upload ann = Some s1"
    "step s1 = Interview" "\<not> isRecording s1" "currentQuestionIndex s1 = 0"
    "sessionId s1 = Some ''A''" "recordedVideos s1 0 = Some first_take"
    "outbox s1 = [GenerateQuestions ann_form, UploadVideo (Some ''A'') 0 first_take]"
    by blast
  have r: "recordedVideos s1 (currentQuestionIndex s1) = Some first_take"
    using s1(4,6) by simp
  from C5_second_recording_replaces_the_first [OF s1(2,3) r, of short_clip]
  obtain s' where s': "run [ClickStart True, ClickStop short_clip] s1 = Some s'"
    "recordedVideos s' 0 = Some short_clip"
    "outbox s' = [GenerateQuestions ann_form, UploadVideo (Some ''A'') 0 first_take,
       UploadVideo (Some ''A'') 0 short_clip]"
    using s1(4,5,7) by auto
  have "run (to_first_upload @ [ClickStart True, ClickStop short_clip]) ann = Some s'"
    by (simp only: run_append s1(1) option.case s'(1))
  with s1 s' show ?thesis by (simp add: at_step_def kept_def sent_def)
qed

text \<open>
  C5, counterexample. Question 0 of session \<open>A\<close> is recorded and its upload is
  acknowledged; a second take is then recorded. It takes the place of the first, a
  second upload for the same question is sent, and nothing is rejected.
\<close>

theorem C5_uploaded_recording_is_overwritten:
  "kept (run to_first_upload ann) 0 = Some first_take
   \<and> kept (run (to_first_upload @ [ClickStart True, ClickStop second_take,
        UploadSettled 0 ok_reply]) ann) 0 = Some second_take
   \<and> first_take \<noteq> second_take
   \<and> sent (run (to_first_upload @ [ClickStart True, ClickStop second_take,
        UploadSettled 0 ok_reply]) ann)
     = [GenerateQuestions ann_form, UploadVideo (Some ''A'') 0 first_take,
        UploadVideo (Some ''A'') 0 second_take]
   \<and> shown (run (to_first_upload @ [ClickStart True, ClickStop second_take,
        UploadSettled 0 ok_reply]) ann) = []"
  by (simp add: handlers examples)

text \<open>The next button is offered only when the current index has a recording.\<close>

lemma next_needs_recording:
  "fire ClickNext s = Some s' \<Longrightarrow>
     step s = Interview \<and> recordedVideos s (currentQuestionIndex s) \<noteq> None \<and> \<not> isUploading s"
  by (simp split: if_splits)

text \<open>
  As long as "Start New Interview" is not pressed the requests are in order: every
  finalize request follows an upload for the same session.
\<close>

lemma uploaded_for_append:
  "uploaded_for sid (xs @ ys) = (uploaded_for sid xs \<or> uploaded_for sid ys)"
  by (simp add: uploaded_for_def)

lemma follows_order_snoc:
  "follows_order seen (xs @ [r])
     = (follows_order seen xs
        \<and> (case r of Finalize sid \<Rightarrow> uploaded_for sid (seen @ xs) | _ \<Rightarrow> True))"
  by (induction xs arbitrary: seen) (auto split: request.splits)

lemma session_order_snoc:
  "session_order (xs @ [r])
     = (session_order xs \<and> (case r of Finalize sid \<Rightarrow> uploaded_for sid xs | _ \<Rightarrow> True))"
  by (cases r) (simp_all add: session_order_def follows_order_snoc)

lemma first_interviewD:
  assumes "first_interview s"
  shows "session_order (outbox s)"
    and "step s = Form \<Longrightarrow> recordedVideos s i = None"
    and "step s = Form \<Longrightarrow> mediaRecorder s = None"
    and "recordedVideos s i \<noteq> None \<Longrightarrow> uploaded_for (sessionId s) (outbox s)"
    and "mediaRecorder s = Some c \<Longrightarrow> snd c = sessionId s"
    and "pendingGenerate s \<Longrightarrow> step s = Form"
    and "pendingFinalize s \<noteq> None \<Longrightarrow> step s = Processing"
    and "pendingResults s \<Longrightarrow> step s = Processing"
    and "pendingResults s \<Longrightarrow> pendingFinalize s = None"
  using assms unfolding first_interview_def by blast+

lemma first_interviewI:
  assumes "session_order (outbox s)"
    and "\<And>i. step s = Form \<Longrightarrow> recordedVideos s i = None"
    and "step s = Form \<Longrightarrow> mediaRecorder s = None"
    and "\<And>i. recordedVideos s i \<noteq> None \<Longrightarrow> uploaded_for (sessionId s) (outbox s)"
    and "\<And>c. mediaRecorder s = Some c \<Longrightarrow> snd c = sessionId s"
    and "pendingGenerate s \<Longrightarrow> step s = Form"
    and "pendingFinalize s \<noteq> None \<Longrightarrow> step s = Processing"
    and "pendingResults s \<Longrightarrow> step s = Processing \<and> pendingFinalize s = None"
  shows "first_interview s"
  unfolding first_interview_def using assms by blast

lemma first_interview_frame:
  assumes "first_interview s" "outbox s' = outbox s" "step s' = step s"
    "recordedVideos s' = recordedVideos s" "mediaRecorder s' = mediaRecorder s"
    "sessionId s' = sessionId s" "pendingGenerate s' \<Longrightarrow> pendingGenerate s"
    "pendingFinalize s' = pendingFinalize s" "pendingResults s' = pendingResults s"
  shows "first_interview s'"
  using assms(1,7) unfolding first_interview_def assms(2-6,8,9) by blast

lemma fi_InputChange:
  assumes "first_interview s" "fire (InputChange f v) s = Some s'"
  shows "first_interview s'"
proof -
  from assms(2) have s': "s' = handleInputChange f v s" by (simp split: if_splits)
  show ?thesis
    by (rule first_interview_frame [OF assms(1)]) (simp_all add: s' handleInputChange_def)
qed

lemma fi_ClickGenerate:
  assumes "first_interview s" "fire ClickGenerate s = Some s'"
  shows "first_interview s'"
proof -
  note d = first_interviewD [OF assms(1)]
  from assms(2) have f: "step s = Form" and s': "s' = generateQuestions s"
    by (simp_all split: if_splits)
  show ?thesis
  proof (rule first_interviewI)
    show "session_order (outbox s')"
      using d(1) by (simp add: s' generateQuestions_def session_order_snoc)
    show "recordedVideos s' i = None" if "step s' = Form" for i
      using d(2) [OF f, of i] by (simp add: s' generateQuestions_def)
    show "mediaRecorder s' = None" if "step s' = Form"
      using d(3) [OF f] by (simp add: s' generateQuestions_def)
    show "uploaded_for (sessionId s') (outbox s')" if "recordedVideos s' i \<noteq> None" for i
      using that d(2) [OF f, of i] by (simp add: s' generateQuestions_def)
    show "snd c = sessionId s'" if "mediaRecorder s' = Some c" for c
      using that d(3) [OF f] by (simp add: s' generateQuestions_def)
    show "step s' = Form" if "pendingGenerate s'"
      using f by (simp add: s' generateQuestions_def)
    show "step s' = Processing" if "pendingFinalize s' \<noteq> None"
      using that d(7) by (simp add: s' generateQuestions_def)
    show "step s' = Processing \<and> pendingFinalize s' = None" if "pendingResults s'"
      using that d(8,9) by (simp add: s' generateQuestions_def)
  qed
qed

lemma fi_GenerateSettled:
  assumes "first_interview s" "fire (GenerateSettled r) s = Some s'"
  shows "first_interview s'"
proof -
  note d = first_interviewD [OF assms(1)]
  from assms(2) have g: "pendingGenerate s" and s': "s' = generateQuestions_settled r s"
    by (simp_all split: if_splits)
  from d(6) [OF g] have f: "step s = Form" .
  show ?thesis
  proof (cases r)
    case (Body ok b)
    show ?thesis
    proof (rule first_interviewI)
      show "session_order (outbox s')"
        using d(1) by (simp add: s' Body generateQuestions_settled_def)
      show "recordedVideos s' i = None" if "step s' = Form" for i
        using that by (simp add: s' Body generateQuestions_settled_def)
      show "mediaRecorder s' = None" if "step s' = Form"
        using that by (simp add: s' Body generateQuestions_settled_def)
      show "uploaded_for (sessionId s') (outbox s')" if "recordedVideos s' i \<noteq> None" for i
        using that d(2) [OF f, of i] by (simp add: s' Body generateQuestions_settled_def)
      show "snd c = sessionId s'" if "mediaRecorder s' = Some c" for c
        using that d(3) [OF f] by (simp add: s' Body generateQuestions_settled_def)
      show "step s' = Form" if "pendingGenerate s'"
        using that by (simp add: s' Body generateQuestions_settled_def)
      show "step s' = Processing" if "pendingFinalize s' \<noteq> None"
        using that d(7) f by (simp add: s' Body generateQuestions_settled_def)
      show "step s' = Processing \<and> pendingFinalize s' = None" if "pendingResults s'"
        using that d(8) f by (simp add: s' Body generateQuestions_settled_def)
    qed
  next
    case NetworkError
    show ?thesis
      by (rule first_interview_frame [OF assms(1)])
        (simp_all add: s' NetworkError generateQuestions_settled_def)
  next
    case (NotJson ok)
    show ?thesis
      by (rule first_interview_frame [OF assms(1)])
        (simp_all add: s' NotJson generateQuestions_settled_def)
  qed
qed

lemma fi_ClickStart:
  assumes "first_interview s" "fire (ClickStart granted) s = Some s'"
  shows "first_interview s'"
proof -
  note d = first_interviewD [OF assms(1)]
  from assms(2) have g: "step s = Interview" and s': "s' = startRecording granted s"
    by (simp_all split: if_splits)
  show ?thesis
  proof (cases granted)
    case False
    show ?thesis
      by (rule first_interview_frame [OF assms(1)]) (simp_all add: s' False startRecording_def)
  next
    case True
    show ?thesis
    proof (rule first_interviewI)
      show "session_order (outbox s')" using d(1) by (simp add: s' True startRecording_def)
      show "recordedVideos s' i = None" if "step s' = Form" for i
        using that g by (simp add: s' True startRecording_def)
      show "mediaRecorder s' = None" if "step s' = Form"
        using that g by (simp add: s' True startRecording_def)
      show "uploaded_for (sessionId s') (outbox s')" if "recordedVideos s' i \<noteq> None" for i
        using that d(4) [of i] by (simp add: s' True startRecording_def)
      show "snd c = sessionId s'" if "mediaRecorder s' = Some c" for c
        using that by (auto simp: s' True startRecording_def)
      show "step s' = Form" if "pendingGenerate s'"
        using that d(6) by (simp add: s' True startRecording_def)
      show "step s' = Processing" if "pendingFinalize s' \<noteq> None"
        using that d(7) by (simp add: s' True startRecording_def)
      show "step s' = Processing \<and> pendingFinalize s' = None" if "pendingResults s'"
        using that d(8,9) by (simp add: s' True startRecording_def)
    qed
  qed
qed

lemma fi_ClickStop:
  assumes "first_interview s" "fire (ClickStop b) s = Some s'"
  shows "first_interview s'"
proof -
  note d = first_interviewD [OF assms(1)]
  from assms(2) have g: "step s = Interview" "isRecording s" and s': "s' = stopRecording b s"
    by (simp_all split: if_splits)
  show ?thesis
  proof (cases "mediaRecorder s")
    case None
    with assms(1) g s' show ?thesis by (simp add: stopRecording_def)
  next
    case (Some c)
    from d(5) [OF Some] have c: "snd c = sessionId s" .
    have e: "s' = s\<lparr> recordedVideos := (recordedVideos s)(fst c := Some b), isUploading := True,
        outbox := outbox s @ [UploadVideo (sessionId s) (fst c) b],
        pendingUploads := pendingUploads s @ [(sessionId s, fst c)],
        isRecording := False, recordingTime := 0 \<rparr>"
      using g Some c by (simp add: s' stopRecording_def onstop_def uploadVideo_def)
    show ?thesis
    proof (rule first_interviewI)
      show "session_order (outbox s')" using d(1) by (simp add: e session_order_snoc)
      show "recordedVideos s' i = None" if "step s' = Form" for i
        using that g by (simp add: e)
      show "mediaRecorder s' = None" if "step s' = Form"
        using that g by (simp add: e)
      show "uploaded_for (sessionId s') (outbox s')" if "recordedVideos s' i \<noteq> None" for i
        by (simp add: e uploaded_for_def)
      show "snd c' = sessionId s'" if "mediaRecorder s' = Some c'" for c'
        using that d(5) [of c'] by (simp add: e)
      show "step s' = Form" if "pendingGenerate s'"
        using that d(6) by (simp add: e)
      show "step s' = Processing" if "pendingFinalize s' \<noteq> None"
        using that d(7) by (simp add: e)
      show "step s' = Processing \<and> pendingFinalize s' = None" if "pendingResults s'"
        using that d(8,9) by (simp add: e)
    qed
  qed
qed

lemma fi_RecordingTick:
  assumes "first_interview s" "fire RecordingTick s = Some s'"
  shows "first_interview s'"
proof -
  from assms(2) have s': "s' = s\<lparr> recordingTime := recordingTime s + 1 \<rparr>"
    by (simp split: if_splits)
  show ?thesis by (rule first_interview_frame [OF assms(1)]) (simp_all add: s')
qed

lemma fi_UploadSettled:
  assumes "first_interview s" "fire (UploadSettled k r) s = Some s'"
  shows "first_interview s'"
proof -
  from assms(2) have s': "s' = uploadVideo_settled k r s" by (simp split: if_splits)
  show ?thesis
    by (cases r; rule first_interview_frame [OF assms(1)])
      (simp_all add: s' uploadVideo_settled_def)
qed

lemma fi_AcousticTimer:
  assumes "first_interview s" "fire (AcousticTimer k) s = Some s'"
  shows "first_interview s'"
proof -
  note d = first_interviewD [OF assms(1)]
  from assms(2) have s': "s' = loadAcousticFeatures k s" by (simp split: if_splits)
  show ?thesis
  proof (rule first_interviewI)
    show "session_order (outbox s')"
      using d(1) by (simp add: s' loadAcousticFeatures_def session_order_snoc)
    show "recordedVideos s' i = None" if "step s' = Form" for i
      using that d(2) [of i] by (simp add: s' loadAcousticFeatures_def)
    show "mediaRecorder s' = None" if "step s' = Form"
      using that d(3) by (simp add: s' loadAcousticFeatures_def)
    show "uploaded_for (sessionId s') (outbox s')" if "recordedVideos s' i \<noteq> None" for i
      using that d(4) [of i] by (simp add: s' loadAcousticFeatures_def uploaded_for_append)
    show "snd c = sessionId s'" if "mediaRecorder s' = Some c" for c
      using that d(5) [of c] by (simp add: s' loadAcousticFeatures_def)
    show "step s' = Form" if "pendingGenerate s'"
      using that d(6) by (simp add: s' loadAcousticFeatures_def)
    show "step s' = Processing" if "pendingFinalize s' \<noteq> None"
      using that d(7) by (simp add: s' loadAcousticFeatures_def)
    show "step s' = Processing \<and> pendingFinalize s' = None" if "pendingResults s'"
      using that d(8,9) by (simp add: s' loadAcousticFeatures_def)
  qed
qed

lemma fi_AcousticSettled:
  assumes "first_interview s" "fire (AcousticSettled k r) s = Some s'"
  shows "first_interview s'"
proof -
  from assms(2) have s': "s' = loadAcousticFeatures_settled k r s" by (simp split: if_splits)
  show ?thesis
    by (cases r; rule first_interview_frame [OF assms(1)])
      (simp_all add: s' loadAcousticFeatures_settled_def split: if_splits)
qed

lemma fi_ClickNext:
  assumes "first_interview s" "fire ClickNext s = Some s'"
  shows "first_interview s'"
proof -
  note d = first_interviewD [OF assms(1)]
  from assms(2) have g: "step s = Interview" "recordedVideos s (currentQuestionIndex s) \<noteq> None"
    and s': "s' = nextQuestion s"
    by (simp_all split: if_splits)
  from d(4) [OF g(2)] have u: "uploaded_for (sessionId s) (outbox s)" .
  from d(6,8) g(1) have p: "\<not> pendingGenerate s" "\<not> pendingResults s" by auto
  show ?thesis
  proof (cases "int (currentQuestionIndex s) < int (length (questions s)) - 1")
    case True
    show ?thesis
      by (rule first_interview_frame [OF assms(1)]) (simp_all add: s' nextQuestion_def True)
  next
    case False
    then have e: "s' = finalizeInterview s" by (simp add: s' nextQuestion_def)
    show ?thesis
    proof (rule first_interviewI)
      show "session_order (outbox s')"
        using d(1) u by (simp add: e finalizeInterview_def session_order_snoc)
      show "recordedVideos s' i = None" if "step s' = Form" for i
        using that by (simp add: e finalizeInterview_def)
      show "mediaRecorder s' = None" if "step s' = Form"
        using that by (simp add: e finalizeInterview_def)
      show "uploaded_for (sessionId s') (outbox s')" if "recordedVideos s' i \<noteq> None" for i
        using u by (simp add: e finalizeInterview_def uploaded_for_append)
      show "snd c = sessionId s'" if "mediaRecorder s' = Some c" for c
        using that d(5) [of c] by (simp add: e finalizeInterview_def)
      show "step s' = Form" if "pendingGenerate s'"
        using that p by (simp add: e finalizeInterview_def)
      show "step s' = Processing" if "pendingFinalize s' \<noteq> None"
        by (simp add: e finalizeInterview_def)
      show "step s' = Processing \<and> pendingFinalize s' = None" if "pendingResults s'"
        using that p by (simp add: e finalizeInterview_def)
    qed
  qed
qed

lemma fi_ProgressTick:
  assumes "first_interview s" "fire ProgressTick s = Some s'"
  shows "first_interview s'"
proof -
  from assms(2) have s': "s' = progress_tick s" by (simp split: if_splits)
  show ?thesis
    by (rule first_interview_frame [OF assms(1)]) (simp_all add: s' progress_tick_def)
qed

lemma fi_FinalizeSettled:
  assumes "first_interview s" "fire (FinalizeSettled r stamp) s = Some s'"
  shows "first_interview s'"
proof -
  note d = first_interviewD [OF assms(1)]
  from assms(2) obtain c where c: "pendingFinalize s = Some c"
    and s': "s' = finalizeInterview_settled c r stamp s"
    by (auto split: option.splits)
  from d(7) c have p: "step s = Processing" by simp
  have k: "outbox s' = outbox s" "step s' = step s" "recordedVideos s' = recordedVideos s"
    "mediaRecorder s' = mediaRecorder s" "sessionId s' = sessionId s"
    "pendingGenerate s' = pendingGenerate s" "pendingFinalize s' = None"
    by (cases r; simp add: s' finalizeInterview_settled_def split: sum.splits)+
  show ?thesis
  proof (rule first_interviewI)
    show "session_order (outbox s')" using d(1) by (simp add: k)
    show "recordedVideos s' i = None" if "step s' = Form" for i
      using that p by (simp add: k)
    show "mediaRecorder s' = None" if "step s' = Form"
      using that p by (simp add: k)
    show "uploaded_for (sessionId s') (outbox s')" if "recordedVideos s' i \<noteq> None" for i
      using that d(4) [of i] by (simp add: k)
    show "snd c' = sessionId s'" if "mediaRecorder s' = Some c'" for c'
      using that d(5) [of c'] by (simp add: k)
    show "step s' = Form" if "pendingGenerate s'"
      using that d(6) by (simp add: k)
    show "step s' = Processing" if "pendingFinalize s' \<noteq> None"
      using that by (simp add: k)
    show "step s' = Processing \<and> pendingFinalize s' = None" if "pendingResults s'"
      using p by (simp add: k)
  qed
qed

lemma fi_ResultsTimer:
  assumes "first_interview s" "fire ResultsTimer s = Some s'"
  shows "first_interview s'"
proof -
  note d = first_interviewD [OF assms(1)]
  from assms(2) have g: "pendingResults s"
    and s': "s' = s\<lparr> step := Results, pendingResults := False \<rparr>"
    by (simp_all split: if_splits)
  from d(8,9) g have p: "step s = Processing" "pendingFinalize s = None" by simp_all
  show ?thesis
  proof (rule first_interviewI)
    show "session_order (outbox s')" using d(1) by (simp add: s')
    show "recordedVideos s' i = None" if "step s' = Form" for i
      using that by (simp add: s')
    show "mediaRecorder s' = None" if "step s' = Form"
      using that by (simp add: s')
    show "uploaded_for (sessionId s') (outbox s')" if "recordedVideos s' i \<noteq> None" for i
      using that d(4) [of i] by (simp add: s')
    show "snd c = sessionId s'" if "mediaRecorder s' = Some c" for c
      using that d(5) [of c] by (simp add: s')
    show "step s' = Form" if "pendingGenerate s'"
      using that d(6) p by (simp add: s')
    show "step s' = Processing" if "pendingFinalize s' \<noteq> None"
      using that p by (simp add: s')
    show "step s' = Processing \<and> pendingFinalize s' = None" if "pendingResults s'"
      using that by (simp add: s')
  qed
qed

lemma fire_first_interview:
  assumes "first_interview s" "fire e s = Some s'" "e \<noteq> ClickNewInterview"
  shows "first_interview s'"
  using assms
  by (cases e)
    (blast intro: fi_InputChange fi_ClickGenerate fi_GenerateSettled fi_ClickStart fi_ClickStop
      fi_RecordingTick fi_UploadSettled fi_AcousticTimer fi_AcousticSettled fi_ClickNext
      fi_ProgressTick fi_FinalizeSettled fi_ResultsTimer)+

lemma run_first_interview:
  assumes "first_interview s" "run es s = Some s'" "ClickNewInterview \<notin> set es"
  shows "first_interview s'"
  using assms
proof (induction es arbitrary: s)
  case Nil
  then show ?case by simp
next
  case (Cons e es)
  from Cons.prems(2) obtain t where t: "fire e s = Some t" "run es t = Some s'"
    by (auto split: option.splits)
  from Cons.prems(3) have n: "e \<noteq> ClickNewInterview" "ClickNewInterview \<notin> set es" by auto
  from fire_first_interview [OF Cons.prems(1) t(1) n(1)] have "first_interview t" .
  from Cons.IH [OF this t(2) n(2)] show ?case .
qed

lemma initial_first_interview: "first_interview (initial n e ls)"
  by (simp add: first_interview_def initial_def session_order_def)

lemma first_interview_keeps_the_order:
  assumes "run es (initial n e ls) = Some s" "ClickNewInterview \<notin> set es"
  shows "session_order (outbox s)"
  using run_first_interview [OF initial_first_interview assms] first_interviewD(1) by blast

text \<open>
  C6, at the failing run. Session \<open>A\<close> is created, its one answer is uploaded, it is
  finalized and the results page shows. "Start New Interview" and a new set of
  questions create session \<open>B\<close>; neither resets \<open>currentQuestionIndex\<close> or
  \<open>recordedVideos\<close>, so the recording of session \<open>A\<close> makes the next button show at
  once. Pressing it sends the finalize request of \<open>B\<close>: the requests of session \<open>B\<close>
  go from its creation straight to finalizing, no upload of \<open>B\<close> was ever sent, and
  the order of session states is broken.
\<close>

theorem C6_new_interview_finalizes_without_an_upload:
  "at_step (run second_interview ann) = Some Processing
   \<and> sent (run second_interview ann)
      = [GenerateQuestions ann_form, UploadVideo (Some ''A'') 0 first_take, Finalize (Some ''A''),
         GenerateQuestions ann_form, Finalize (Some ''B'')]
   \<and> \<not> session_order (sent (run second_interview ann))"
  by (simp add: handlers examples save_session_def parse_or_empty_def session_order_def
      uploaded_for_def)

text \<open>
  With the reset of the App.js components in place of the bare step change, the next
  button is not offered when the second interview starts.
\<close>

lemma reset_closes_the_gap:
  assumes "fire (GenerateSettled (Body ok d)) (generateQuestions
             (handleInputChange FPosition p (handleInputChange FEmail e
               (handleInputChange FName n (startNewInterview_App s))))) = Some s'"
  shows "fire ClickNext s' = None"
  using assms
  by (auto simp: startNewInterview_App_def handleInputChange_def generateQuestions_def
      generateQuestions_settled_def split: if_splits)

text \<open>Progress ticks while the interval runs: five points each, up to 90.\<close>

lemma progress_ticks:
  assumes "progressInterval s" "processingProgress s = 5 * m" "m \<le> 18"
  shows "run (replicate n ProgressTick) s
           = Some (s\<lparr>processingProgress := 5 * min (m + n) 18\<rparr>)"
  using assms
proof (induction n arbitrary: s m)
  case 0
  then show ?case by simp
next
  case (Suc n)
  let ?t = "progress_tick s"
  have t: "?t = s\<lparr>processingProgress := 5 * min (m + 1) 18\<rparr>"
    using Suc.prems by (auto simp: progress_tick_def min_def)
  have "run (replicate n ProgressTick) ?t
      = Some (?t\<lparr>processingProgress := 5 * min (min (m + 1) 18 + n) 18\<rparr>)"
    by (rule Suc.IH) (use Suc.prems t in auto)
  moreover have "min (min (m + 1) 18 + n) 18 = min (m + Suc n) 18"
    by (simp add: min_def)
  ultimately show ?case using Suc.prems t by simp
qed

text \<open>The state in which the finalize request of session \<open>A\<close> is pending.\<close>

lemma processing_state:
  "\<exists>s0 s1. run to_first_upload ann = Some s0 \<and> fire ClickNext s0 = Some s1
     \<and> run to_processing ann = Some s1 \<and> step s1 = Processing \<and> progressInterval s1
     \<and> processingProgress s1 = 5 * 0 \<and> alerts s1 = []
     \<and> pendingFinalize s1 = Some \<lparr> fc_sessionId = Some ''A'', fc_position = ''Engineer'',
          fc_questions = 1, fc_acousticData = [] \<rparr>
     \<and> parse_or_empty (localStorage s1) ''sessionHistory'' = Inr (JArr [])
     \<and> localStorage s1 ''sessionHistory'' = None"
  by (simp add: handlers examples parse_or_empty_def)

text \<open>
  C7 (amended). \<open>finalizeInterview\<close> has no timeout of its own. Once the finish button
  has sent the finalize request, any number \<open>n\<close> of 2 s progress ticks leaves the
  client in the processing step with the request still pending: the progress climbs by
  five per tick and stops at 90, nothing is sent and no alert is shown. No question is
  marked as timed out; the client has no such status.
\<close>

theorem C7_finalize_waits_without_timeout:
  assumes "fire ClickNext s = Some s1" "step s1 = Processing"
  shows "\<exists>s'. run (replicate n ProgressTick) s1 = Some s'
            \<and> step s' = Processing \<and> pendingFinalize s' = pendingFinalize s1
            \<and> pendingFinalize s' \<noteq> None
            \<and> processingProgress s' = min (5 * n) 90
            \<and> outbox s' = outbox s1 \<and> alerts s' = alerts s1"
proof -
  from assms have s1: "s1 = finalizeInterview s"
    by (auto simp: nextQuestion_def split: if_splits)
  have "run (replicate n ProgressTick) s1
      = Some (s1\<lparr>processingProgress := 5 * min (0 + n) 18\<rparr>)"
    by (rule progress_ticks) (simp_all add: s1 finalizeInterview_def)
  moreover have "5 * min n 18 = min (5 * n) (90::nat)" by (simp add: min_def)
  ultimately show ?thesis using assms(2) by (simp add: s1 finalizeInterview_def)
qed

theorem C7_finalize_waits_without_timeout_witness:
  "at_step (run to_processing ann) = Some Processing
   \<and> at_step (run (to_processing @ replicate 3 ProgressTick) ann) = Some Processing
   \<and> map_option processingProgress (run (to_processing @ replicate 3 ProgressTick) ann)
      = Some 15"
proof -
  from processing_state obtain s0 s1 where s: "run to_first_upload ann = Some s0"
    "fire ClickNext s0 = Some s1" "run to_processing ann = Some s1" "step s1 = Processing"
    by blast
  from C7_finalize_waits_without_timeout [OF s(2,4), of 3]
  obtain s' where s': "run (replicate 3 ProgressTick) s1 = Some s'" "step s' = Processing"
    "processingProgress s' = 15" by auto
  have "run (to_processing @ replicate 3 ProgressTick) ann = Some s'"
    by (simp only: run_append s(3) option.case s'(1))
  with s s' show ?thesis by (simp add: at_step_def)
qed

text \<open>
  C7, counterexample. With the finalize request of session \<open>A\<close> unanswered, 1800
  progress ticks (one hour) later the client is still in the processing step, at 90
  percent, and has shown no alert.
\<close>

theorem C7_still_processing_after_an_hour:
  "at_step (run (to_processing @ replicate 1800 ProgressTick) ann) = Some Processing
   \<and> shown (run (to_processing @ replicate 1800 ProgressTick) ann) = []
   \<and> map_option processingProgress (run (to_processing @ replicate 1800 ProgressTick) ann)
       = Some 90"
proof -
  from processing_state obtain s1 where s1: "run to_processing ann = Some s1"
    "progressInterval s1" "processingProgress s1 = 5 * 0" "step s1 = Processing"
    "alerts s1 = []" by blast
  have "run (to_processing @ replicate 1800 ProgressTick) ann
      = run (replicate 1800 ProgressTick) s1"
    by (simp only: run_append s1(1) option.case)
  also have "\<dots> = Some (s1\<lparr>processingProgress := 5 * min (0 + 1800) 18\<rparr>)"
    by (rule progress_ticks [OF s1(2) s1(3)]) simp
  finally show ?thesis using s1 by (simp add: at_step_def shown_def)
qed

text \<open>What the interview flow does to localStorage: only \<open>sessionHistory\<close> is written.\<close>

lemma save_session_frame:
  "save_session entry ls = Inr ls' \<Longrightarrow> k \<noteq> ''sessionHistory'' \<Longrightarrow> ls' k = ls k"
  by (auto simp: save_session_def split: sum.splits jsval.splits)

lemma fire_frame:
  assumes "fire e s = Some s'" "k \<noteq> ''sessionHistory''"
  shows "localStorage s' k = localStorage s k"
proof (cases e)
  case (FinalizeSettled r stamp)
  with assms show ?thesis
    by (auto simp: finalizeInterview_settled_def split: option.splits outcome.splits sum.splits
        dest: save_session_frame)
qed (use assms in \<open>auto simp: handlers split: if_splits option.splits outcome.splits\<close>)

lemma run_frame:
  "run es s = Some s' \<Longrightarrow> k \<noteq> ''sessionHistory'' \<Longrightarrow> localStorage s' k = localStorage s k"
proof (induction es arbitrary: s)
  case Nil
  then show ?case by simp
next
  case (Cons e es)
  then obtain t where t: "fire e s = Some t" "run es t = Some s'"
    by (auto split: option.splits)
  from Cons.IH [OF t(2) Cons.prems(2)] fire_frame [OF t(1) Cons.prems(2)] show ?case by simp
qed

lemma Dashboard_reads_interview_history:
  "ls' ''interview_history'' = ls ''interview_history'' \<Longrightarrow> Dashboard ls' = Dashboard ls"
  by (simp add: Dashboard_def Dashboard_history_def parse_or_empty_def)

lemma Dashboard_browser_storage:
  "Dashboard browser_storage = Inr \<lparr> dv_total_interviews = 1,
     dv_average_score = Percent (Fin 80), dv_time_practiced = 15,
     dv_recent = [\<lparr> ri_position = JStr ''Analyst'', ri_date = JStr ''1/1/2024'',
                     ri_score = JNum 80 \<rparr>] \<rparr>"
  by (simp add: Dashboard_def Dashboard_history_def parse_or_empty_def Dashboard_stats_def
      browser_storage_def past_interview_def add_score_def or_else_def recent_row_def
      double_eval floor_eq_iff)

text \<open>
  C10. Take any run \<open>es\<close> of the interview flow from a state \<open>s\<close> that ends with a
  finalize request pending, the stored \<open>sessionHistory\<close> being absent, empty or a JSON
  array \<open>h\<close>. When the reply arrives and parses, the session is written in front of
  \<open>h\<close> under \<open>sessionHistory\<close>; every other key of localStorage, \<open>interview_history\<close>
  among them, holds what it held in \<open>s\<close>; and the Dashboard that reads
  \<open>interview_history\<close> shows the same statistics and the same list as for \<open>s\<close>.
\<close>

theorem C10_finalize_writes_sessionHistory_only:
  assumes "run es s = Some s1" "pendingFinalize s1 = Some c"
    "parse_or_empty (localStorage s1) ''sessionHistory'' = Inr (JArr h)"
  shows "\<exists>s2. fire (FinalizeSettled (Body ok d) stamp) s1 = Some s2
           \<and> localStorage s2 ''sessionHistory'' = Some (Json (JArr (sessionData c stamp # h)))
           \<and> (\<forall>k. k \<noteq> ''sessionHistory'' \<longrightarrow> localStorage s2 k = localStorage s k)
           \<and> localStorage s2 ''interview_history'' = localStorage s ''interview_history''
           \<and> Dashboard (localStorage s2) = Dashboard (localStorage s)"
proof -
  obtain s2 where s2: "fire (FinalizeSettled (Body ok d) stamp) s1 = Some s2"
    using assms(2) by simp
  have w: "localStorage s2 ''sessionHistory'' = Some (Json (JArr (sessionData c stamp # h)))"
    using s2 assms(2,3) by (auto simp: finalizeInterview_settled_def save_session_def)
  have f: "localStorage s2 k = localStorage s k" if "k \<noteq> ''sessionHistory''" for k
    using fire_frame [OF s2 that] run_frame [OF assms(1) that] by simp
  have i: "localStorage s2 ''interview_history'' = localStorage s ''interview_history''"
    by (rule f) simp
  from s2 w f i Dashboard_reads_interview_history [of "localStorage s2" "localStorage s", OF i]
  show ?thesis by blast
qed

theorem C10_finalize_writes_sessionHistory_only_witness:
  "map_option pendingFinalize (run to_processing ann)
     = Some (Some \<lparr> fc_sessionId = Some ''A'', fc_position = ''Engineer'', fc_questions = 1,
          fc_acousticData = [] \<rparr>)
   \<and> stored_after (run to_processing ann) ''sessionHistory'' = None
   \<and> stored_after (run (to_processing @ [FinalizeSettled ok_reply ''2024-01-01T00:00:00.000Z''])
        ann) ''sessionHistory''
      = Some (Json (JArr [JObj [(''sessionId'', JStr ''A''), (''position'', JStr ''Engineer''),
          (''timestamp'', JStr ''2024-01-01T00:00:00.000Z''), (''questions'', JNum 1),
          (''acousticData'', JObj [])]]))
   \<and> stored_after (run (to_processing @ [FinalizeSettled ok_reply ''2024-01-01T00:00:00.000Z''])
        ann) ''interview_history'' = Some (Json (JArr [past_interview]))
   \<and> dashboard_after (run (to_processing @ [FinalizeSettled ok_reply
        ''2024-01-01T00:00:00.000Z'']) ann)
      = Some (Inr \<lparr> dv_total_interviews = 1, dv_average_score = Percent (Fin 80),
          dv_time_practiced = 15,
          dv_recent = [\<lparr> ri_position = JStr ''Analyst'', ri_date = JStr ''1/1/2024'',
                          ri_score = JNum 80 \<rparr>] \<rparr>)"
proof -
  from processing_state obtain s1 where s1: "run to_processing ann = Some s1"
    "pendingFinalize s1 = Some \<lparr> fc_sessionId = Some ''A'', fc_position = ''Engineer'',
       fc_questions = 1, fc_acousticData = [] \<rparr>"
    "parse_or_empty (localStorage s1) ''sessionHistory'' = Inr (JArr [])"
    and n: "localStorage s1 ''sessionHistory'' = None" by blast
  from C10_finalize_writes_sessionHistory_only [OF s1(1,2,3), of True
      "JObj [(''status'', JStr ''ok'')]" "''2024-01-01T00:00:00.000Z''"]
  obtain s2 where s2:
    "fire (FinalizeSettled ok_reply ''2024-01-01T00:00:00.000Z'') s1 = Some s2"
    "localStorage s2 ''sessionHistory'' = Some (Json (JArr [sessionData
       \<lparr> fc_sessionId = Some ''A'', fc_position = ''Engineer'', fc_questions = 1,
         fc_acousticData = [] \<rparr> ''2024-01-01T00:00:00.000Z'']))"
    "localStorage s2 ''interview_history'' = localStorage ann ''interview_history''"
    "Dashboard (localStorage s2) = Dashboard (localStorage ann)"
    by (auto simp: ok_reply_def)
  have r: "run (to_processing @ [FinalizeSettled ok_reply ''2024-01-01T00:00:00.000Z'']) ann
      = Some s2"
    by (simp only: run_append s1(1) option.case run.simps s2(1))
  have a: "localStorage ann = browser_storage" by (simp add: ann_def initial_def)
  show ?thesis
    unfolding r using s1(1,2) n s2(2,3,4) a Dashboard_browser_storage
    by (simp add: stored_after_def dashboard_after_def sessionData_def browser_storage_def)
qed

section \<open>Properties of the analysis dashboard\<close>

lemmas data = analysis_of_def question_entry_def voiced_speech_def silent_speech_def
  real_video_def fallback_report_def fallback_video_def three_questions_def speech_only_def
  unanswered_def reads_nothing_def

lemmas render = renderOverview_def overview_row_def currentQuestion_def
  metric_def percent_metric_def plot_source_def recommendations_def speechPanel_def
  renderSpeechAnalysis_def videoPanel_def renderVideoAnalysis_def or_else_def

lemma get_prop_opt: "get_prop q k = Inr v \<Longrightarrow> opt_prop q k = v"
  by (cases q) auto

lemma count_truthy_filter:
  "count_truthy k qs = Inr n \<Longrightarrow> n = length (filter (\<lambda>q. truthy (opt_prop q k)) qs)"
proof (induction qs arbitrary: n)
  case Nil
  then show ?case by simp
next
  case (Cons q qs)
  then show ?case by (auto split: sum.splits if_splits dest: get_prop_opt)
qed

lemma renderOverview_counts:
  assumes "renderOverview (analysis_of qs) = Inr (Some ov)"
  shows "ov_totalQuestions ov = length qs"
    and "ov_speechAnalyzed ov = length (filter (\<lambda>q. truthy (opt_prop q ''speech_analysis'')) qs)"
    and "ov_videoAnalyzed ov = length (filter (\<lambda>q. truthy (opt_prop q ''video_analysis'')) qs)"
    and "ov_complete ov
           = analysis_complete (ov_speechAnalyzed ov) (ov_videoAnalyzed ov) (length qs)"
  using assms
  by (auto simp: renderOverview_def analysis_of_def split: sum.splits dest: count_truthy_filter)

text \<open>The figure at the inputs of the examples, each rounding evaluated.\<close>

lemma figure_two_of_three: "analysis_complete 2 2 3 = Fin 67"
  by (simp add: analysis_complete_def double_eval)

lemma figure_speech_only: "analysis_complete 1 0 1 = Fin 50"
  by (simp add: analysis_complete_def double_eval)

lemma figure_counted:
  "analysis_complete (Suc (Suc 0)) (Suc (Suc 0)) (Suc (Suc (Suc 0))) = Fin 67"
  "analysis_complete (Suc 0) 0 (Suc 0) = Fin 50"
  using figure_two_of_three figure_speech_only by (simp_all add: numeral_2_eq_2 numeral_3_eq_3)

lemma figure_23_of_40: "analysis_complete 20 3 20 = Fin 57"
  by (simp add: analysis_complete_def double_eval)

lemma figure_nothing_analysed: "0 < n \<Longrightarrow> analysis_complete 0 0 n = Fin 0"
  by (simp add: analysis_complete_def to_double_zero floor_eq_iff)

lemma figure_no_questions: "analysis_complete 0 0 0 = NaN"
  by (simp add: analysis_complete_def)

text \<open>
  Doubling both counts does not change the quotient, so with as many speech as video
  analyses the figure is that of \<open>Math.round(analysed / total * 100)\<close>.
\<close>

lemma analysis_complete_same:
  "analysis_complete a a n
     = Math_round (js_mul (js_div (Fin (of_nat a)) (Fin (of_nat n))) (Fin 100))"
proof -
  have "(of_nat (a + a) :: rat) / of_nat (n * 2) = of_nat a / of_nat n"
    by simp
  then have "js_div (Fin (of_nat (a + a))) (Fin (of_nat (n * 2)))
      = js_div (Fin (of_nat a)) (Fin (of_nat n))"
    by simp
  then show ?thesis by (simp only: analysis_complete_def)
qed

text \<open>
  The figure is a whole number within one half of the exact percentage
  \<open>100 * (s + v) / (2 * n)\<close>: the nearest one, and at an exact half either neighbour.
\<close>

lemma figure_nearest:
  assumes "0 < n" "n < 2 ^ 32" "s + v \<le> 2 * n"
  shows "\<exists>k. analysis_complete s v n = Fin (rat_of_int k)
           \<and> \<bar>rat_of_int k - 100 * rat_of_nat (s + v) / rat_of_nat (2 * n)\<bar> \<le> 1 / 2"
proof (cases "s + v = 0")
  case True
  then have "analysis_complete s v n = Fin (rat_of_int 0)"
    using assms(1) by (simp add: analysis_complete_def to_double_zero floor_eq_iff)
  with True show ?thesis by (intro exI [of _ 0]) simp
next
  case False
  define q :: rat where "q = rat_of_nat (s + v) / rat_of_nat (2 * n)"
  have n2: "0 < rat_of_nat (2 * n)" using assms(1) by simp
  have "rat_of_nat (2 * n) < rat_of_nat (2 ^ 33)"
    using assms(2) by (simp only: of_nat_less_iff) simp
  then have n33: "rat_of_nat (2 * n) \<le> 2 ^ 33" by simp
  have "1 \<le> s + v" using False by linarith
  then have "rat_of_nat 1 \<le> rat_of_nat (s + v)" by (simp only: of_nat_le_iff)
  then have t1: "1 \<le> rat_of_nat (s + v)" by (simp only: of_nat_1)
  have "1 / 2 ^ 33 \<le> q" unfolding q_def using t1 n2 n33 by (intro frac_le) simp_all
  then have q_lo: "1 / 2 ^ 33 \<le> q" .
  have "rat_of_nat (s + v) \<le> rat_of_nat (2 * n)" using assms(3) by (simp only: of_nat_le_iff)
  then have q_hi: "q \<le> 1" unfolding q_def using n2 by (simp add: divide_le_eq_1)
  have "(1::rat) / 2 ^ 100 \<le> 1 / 2 ^ 33" by simp
  with q_lo have "1 / 2 ^ 100 \<le> q" by linarith
  moreover have "q \<le> 200" using q_hi by simp
  ultimately obtain d1 where d1: "to_double q = Fin d1" "\<bar>d1 - q\<bar> \<le> q / 2 ^ 53"
    using to_double_near by blast
  have "rat_of_nat (n * 2) \<noteq> 0" using assms(1) by simp
  moreover have "rat_of_nat (s + v) / rat_of_nat (n * 2) = q"
    by (simp add: q_def mult.commute)
  ultimately have dv: "js_div (Fin (rat_of_nat (s + v))) (Fin (rat_of_nat (n * 2))) = Fin d1"
    using d1(1) by simp
  from d1(2) have b1: "q - q / 2 ^ 53 \<le> d1" "d1 \<le> q + q / 2 ^ 53"
    by (simp_all only: abs_diff_le_iff)
  define y where "y = d1 * 100"
  have "1 / 2 ^ 100 \<le> y" unfolding y_def using b1(1) q_lo by simp
  moreover have "y \<le> 200" unfolding y_def using b1(2) q_hi by simp
  ultimately obtain d2 where d2: "to_double y = Fin d2" "\<bar>d2 - y\<bar> \<le> y / 2 ^ 53"
    using to_double_near by blast
  from d2(2) have b2: "y - y / 2 ^ 53 \<le> d2" "d2 \<le> y + y / 2 ^ 53"
    by (simp_all only: abs_diff_le_iff)
  have ml: "js_mul (Fin d1) (Fin 100) = Fin d2" using d2(1) by (simp add: y_def)
  have fig: "analysis_complete s v n = Fin (rat_of_int \<lfloor>d2 + 1 / 2\<rfloor>)"
    by (simp only: analysis_complete_def dv ml Math_round.simps)
  have P: "100 * rat_of_nat (s + v) / rat_of_nat (2 * n)
      = rat_of_int (100 * int (s + v)) / rat_of_int (2 * int n)"
    by simp
  have "100 * q - 1 / 2 ^ 44 < d2" "d2 < 100 * q + 1 / 2 ^ 44"
    using b1 b2 q_hi q_lo unfolding y_def by simp_all
  then have "\<bar>d2 - 100 * q\<bar> < 1 / 2 ^ 44"
    by (simp only: abs_diff_less_iff)
  then have close: "\<bar>d2 - rat_of_int (100 * int (s + v)) / rat_of_int (2 * int n)\<bar> < 1 / 2 ^ 44"
    by (simp add: q_def)
  have "0 < 2 * int n" "2 * int n < 2 ^ 33" using assms(1,2) by simp_all
  from round_near_fraction [OF this close] fig P show ?thesis by auto
qed

lemma currentQuestion_update:
  "j \<noteq> i \<Longrightarrow> currentQuestion (analysis_of (qs[j := q])) i = currentQuestion (analysis_of qs) i"
  by (simp add: currentQuestion_def analysis_of_def)

lemma three_questions_overview:
  "renderOverview (analysis_of three_questions) = Inr (Some \<lparr> ov_totalQuestions = 3,
      ov_speechAnalyzed = 2, ov_videoAnalyzed = 2, ov_complete = Fin 67,
      ov_items = [\<lparr> oi_text = ''Q1...'', oi_speech = True, oi_video = True \<rparr>,
        \<lparr> oi_text = ''Q2...'', oi_speech = True, oi_video = True \<rparr>,
        \<lparr> oi_text = ''Q3...'', oi_speech = False, oi_video = False \<rparr>] \<rparr>)"
  by (simp add: data render figure_counted)

text \<open>
  C2 (amended). For a session with at least one question the overview's "Analysis
  Complete" figure is \<open>Math.round((s + v) / (total * 2) * 100)\<close> in double arithmetic,
  \<open>s\<close> and \<open>v\<close> being the numbers of questions with a speech and with a video analysis:
  a whole number within one half of the exact percentage \<open>100 * (s + v) / (2 * total)\<close>
  (an array has fewer than \<open>2 ^ 32\<close> entries). When every question has both analyses
  or neither, the figure is \<open>Math.round(analysed / total * 100)\<close>, the rounded
  percentage of analysed questions. The speech and the video tab of question \<open>i\<close> are
  computed from entry \<open>i\<close> alone: replacing any other entry \<open>j\<close> leaves them as they
  were.
\<close>

theorem C2_analysis_complete_figure:
  assumes "renderOverview (analysis_of qs) = Inr (Some ov)" "qs \<noteq> []"
  shows "ov_totalQuestions ov = length qs
    \<and> ov_speechAnalyzed ov = length (filter (\<lambda>q. truthy (opt_prop q ''speech_analysis'')) qs)
    \<and> ov_videoAnalyzed ov = length (filter (\<lambda>q. truthy (opt_prop q ''video_analysis'')) qs)
    \<and> ov_complete ov
        = Math_round (js_mul (js_div (Fin (of_nat (ov_speechAnalyzed ov + ov_videoAnalyzed ov)))
                                     (Fin (of_nat (length qs * 2)))) (Fin 100))
    \<and> (length qs < 2 ^ 32 \<longrightarrow>
          (\<exists>k. ov_complete ov = Fin (rat_of_int k)
             \<and> \<bar>rat_of_int k - 100 * rat_of_nat (ov_speechAnalyzed ov + ov_videoAnalyzed ov)
                                   / rat_of_nat (2 * length qs)\<bar> \<le> 1 / 2))
    \<and> ((\<forall>q\<in>set qs. truthy (opt_prop q ''speech_analysis'')
                     = truthy (opt_prop q ''video_analysis''))
        \<longrightarrow> ov_complete ov
              = Math_round (js_mul (js_div (Fin (of_nat (ov_speechAnalyzed ov)))
                                           (Fin (of_nat (length qs)))) (Fin 100)))
    \<and> (\<forall>parse i j q. j \<noteq> i \<longrightarrow>
          renderSpeechAnalysis parse (analysis_of (qs[j := q])) i
            = renderSpeechAnalysis parse (analysis_of qs) i
          \<and> renderVideoAnalysis parse (analysis_of (qs[j := q])) i
            = renderVideoAnalysis parse (analysis_of qs) i)"
proof -
  note c = renderOverview_counts [OF assms(1)]
  have fig: "ov_complete ov
      = Math_round (js_mul (js_div (Fin (of_nat (ov_speechAnalyzed ov + ov_videoAnalyzed ov)))
                                   (Fin (of_nat (length qs * 2)))) (Fin 100))"
    using c(4) by (simp only: analysis_complete_def)
  have near: "\<exists>k. ov_complete ov = Fin (rat_of_int k)
      \<and> \<bar>rat_of_int k - 100 * rat_of_nat (ov_speechAnalyzed ov + ov_videoAnalyzed ov)
                            / rat_of_nat (2 * length qs)\<bar> \<le> 1 / 2"
    if "length qs < 2 ^ 32"
  proof -
    have "ov_speechAnalyzed ov \<le> length qs" "ov_videoAnalyzed ov \<le> length qs"
      unfolding c(2,3) by simp_all
    then have "ov_speechAnalyzed ov + ov_videoAnalyzed ov \<le> 2 * length qs" by simp
    moreover have "0 < length qs" using assms(2) by simp
    ultimately show ?thesis using figure_nearest that unfolding c(4) by blast
  qed
  have same: "ov_complete ov
      = Math_round (js_mul (js_div (Fin (of_nat (ov_speechAnalyzed ov)))
                                   (Fin (of_nat (length qs)))) (Fin 100))"
    if "\<forall>q\<in>set qs. truthy (opt_prop q ''speech_analysis'')
         = truthy (opt_prop q ''video_analysis'')"
  proof -
    from that have "filter (\<lambda>q. truthy (opt_prop q ''speech_analysis'')) qs
        = filter (\<lambda>q. truthy (opt_prop q ''video_analysis'')) qs"
      by (intro filter_cong) auto
    then have "ov_videoAnalyzed ov = ov_speechAnalyzed ov" using c(2,3) by simp
    then show ?thesis using c(4) analysis_complete_same by simp
  qed
  have tabs: "renderSpeechAnalysis parse (analysis_of (qs[j := q])) i
        = renderSpeechAnalysis parse (analysis_of qs) i
      \<and> renderVideoAnalysis parse (analysis_of (qs[j := q])) i
        = renderVideoAnalysis parse (analysis_of qs) i" if "j \<noteq> i" for parse i j q
    using currentQuestion_update [OF that]
    by (simp add: renderSpeechAnalysis_def renderVideoAnalysis_def)
  from c(1,2,3) fig near same tabs show ?thesis by blast
qed

theorem C2_analysis_complete_figure_witness:
  "renderOverview (analysis_of three_questions) = Inr (Some \<lparr> ov_totalQuestions = 3,
      ov_speechAnalyzed = 2, ov_videoAnalyzed = 2, ov_complete = Fin 67,
      ov_items = [\<lparr> oi_text = ''Q1...'', oi_speech = True, oi_video = True \<rparr>,
        \<lparr> oi_text = ''Q2...'', oi_speech = True, oi_video = True \<rparr>,
        \<lparr> oi_text = ''Q3...'', oi_speech = False, oi_video = False \<rparr>] \<rparr>)
   \<and> three_questions \<noteq> []
   \<and> length (filter (\<lambda>q. truthy (opt_prop q ''speech_analysis'')) three_questions) = 2
   \<and> Math_round (js_mul (js_div (Fin 4) (Fin 6)) (Fin 100)) = Fin 67
   \<and> length three_questions < 2 ^ 32 \<and> \<bar>(67 :: rat) - 100 * 4 / 6\<bar> \<le> 1 / 2
   \<and> Math_round (js_mul (js_div (Fin 2) (Fin 3)) (Fin 100)) = Fin 67
   \<and> renderSpeechAnalysis reads_nothing (analysis_of (three_questions[2 := JNull])) 0
      = renderSpeechAnalysis reads_nothing (analysis_of three_questions) 0
   \<and> renderVideoAnalysis reads_nothing (analysis_of (three_questions[2 := JNull])) 1
      = renderVideoAnalysis reads_nothing (analysis_of three_questions) 1"
proof -
  have ne: "three_questions \<noteq> []" by (simp add: three_questions_def)
  have len: "length three_questions = 3" by (simp add: three_questions_def)
  have both: "\<forall>q\<in>set three_questions. truthy (opt_prop q ''speech_analysis'')
      = truthy (opt_prop q ''video_analysis'')"
    by (simp add: data)
  from C2_analysis_complete_figure [OF three_questions_overview ne] both
    three_questions_overview ne len
  show ?thesis by simp
qed

text \<open>
  C2, counterexample. One question whose speech was analysed and whose video was not:
  the figure is 50, where analysed / total questions can only be 0 or 1.
\<close>

theorem C2_speech_only_shows_50:
  "renderOverview (analysis_of speech_only) = Inr (Some \<lparr> ov_totalQuestions = 1,
      ov_speechAnalyzed = 1, ov_videoAnalyzed = 0, ov_complete = Fin 50,
      ov_items = [\<lparr> oi_text = ''Q1...'', oi_speech = True, oi_video = False \<rparr>] \<rparr>)"
  by (simp add: data render figure_counted)

text \<open>
  With at least one question and none of them analysed the overview shows 0 speech
  analysed, 0 video analysed and a figure of 0: the division is by a number that is
  not 0.
\<close>

lemma nothing_analysed_shows_zero:
  assumes "renderOverview (analysis_of qs) = Inr (Some ov)" "qs \<noteq> []"
    "\<forall>q\<in>set qs. \<not> truthy (opt_prop q ''speech_analysis'')
                \<and> \<not> truthy (opt_prop q ''video_analysis'')"
  shows "ov_totalQuestions ov = length qs \<and> ov_speechAnalyzed ov = 0
    \<and> ov_videoAnalyzed ov = 0 \<and> ov_complete ov = Fin 0"
proof -
  note c = renderOverview_counts [OF assms(1)]
  have "filter (\<lambda>q. truthy (opt_prop q ''speech_analysis'')) qs = []"
    "filter (\<lambda>q. truthy (opt_prop q ''video_analysis'')) qs = []"
    using assms(3) by (auto simp: filter_empty_conv)
  with c have z: "ov_speechAnalyzed ov = 0" "ov_videoAnalyzed ov = 0" by simp_all
  have "0 < length qs" using assms(2) by simp
  from figure_nothing_analysed [OF this] c(1,4) z show ?thesis by simp
qed

lemma unanswered_overview:
  "renderOverview (analysis_of unanswered) = Inr (Some \<lparr> ov_totalQuestions = 2,
      ov_speechAnalyzed = 0, ov_videoAnalyzed = 0, ov_complete = Fin 0,
      ov_items = [\<lparr> oi_text = ''Q1...'', oi_speech = False, oi_video = False \<rparr>,
        \<lparr> oi_text = ''Q2...'', oi_speech = False, oi_video = False \<rparr>] \<rparr>)"
  by (simp add: data render figure_nothing_analysed)

text \<open>
  The Dashboard's average score, a sibling of the figure, is guarded: with an empty
  history nothing is divided and the card shows 0.
\<close>

lemma Dashboard_guards_empty_history:
  "Dashboard_stats (JArr []) = Inr \<lparr> dv_total_interviews = 0, dv_average_score = NoInterviews,
     dv_time_practiced = 0, dv_recent = [] \<rparr>"
  by (simp add: Dashboard_stats_def)

text \<open>
  C3. A session whose analysis carries no question has no analysed question, and the
  claim asks for a completion figure of 0 there, a defined number. The overview
  divides by \<open>totalQuestions * 2\<close> without looking at it: the figure is
  \<open>Math.round(0 / 0 * 100)\<close>, which is NaN, and the card reads "NaN%".
\<close>

theorem C3_empty_session_shows_NaN:
  "renderOverview (analysis_of []) = Inr (Some \<lparr> ov_totalQuestions = 0,
      ov_speechAnalyzed = 0, ov_videoAnalyzed = 0, ov_complete = NaN, ov_items = [] \<rparr>)"
  by (simp add: data render figure_no_questions)

lemma extract_pitch_silent:
  "voiced_ratio threshold fs = 0 \<Longrightarrow>
     extract_pitch threshold neutral fs
       = \<lparr> pf_mean = neutral, pf_stdev = neutral, pf_min = neutral, pf_max = neutral,
           pf_voiced_ratio = neutral, pf_insufficient_signal = True \<rparr>"
  by (simp add: extract_pitch_def Let_def)

lemma chart_points_silent:
  assumes "\<forall>v\<in>set vs. v = JNull \<or> (\<exists>x. v = JNum x \<and> x \<le> 0)"
  shows "chart_points vs = Some (replicate (length vs) JNull)"
  using assms
proof (induction vs)
  case Nil
  then show ?case by simp
next
  case (Cons v vs)
  then have tl: "chart_points vs = Some (replicate (length vs) JNull)" by simp
  from Cons.prems consider "v = JNull" | x where "v = JNum x" "x \<le> 0" by auto
  then show ?case
  proof cases
    case 1
    with tl show ?thesis by simp
  next
    case 2
    with tl to_double_not_positive [OF 2(2)] show ?thesis by simp
  qed
qed

lemma tick_labels_of_numbers:
  "\<forall>t\<in>set ts. \<exists>r. t = JNum r \<Longrightarrow> \<exists>ls. tick_labels i ts = Inr ls"
proof (induction ts arbitrary: i)
  case Nil
  then show ?case by simp
next
  case (Cons t ts)
  then obtain r where t: "t = JNum r" by auto
  from Cons obtain ls where "tick_labels (Suc i) ts = Inr ls" by fastforce
  with t show ?case by (simp add: tick_label_def)
qed

lemma chart_of_silence:
  assumes "opt_prop pitch ''values'' = JArr vs"
    "\<forall>v\<in>set vs. v = JNull \<or> (\<exists>x. v = JNum x \<and> x \<le> 0)"
    "opt_prop pitch ''time'' = JArr ts" "\<forall>t\<in>set ts. \<exists>r. t = JNum r"
  shows "\<exists>c. getChartData_pitch pitch = Some (Inr (Some c))
           \<and> lc_data c = replicate (length vs) JNull"
proof -
  from assms(1) obtain kvs where p: "pitch = JObj kvs" by (cases pitch) auto
  from tick_labels_of_numbers [OF assms(4)] obtain ls where "tick_labels 0 ts = Inr ls"
    by blast
  then have l: "pitch_labels (opt_prop pitch ''time'') = Inr ls"
    by (simp add: assms(3) pitch_labels_def)
  from p assms(1) l chart_points_silent [OF assms(2)] show ?thesis
    by (simp add: getChartData_pitch_def)
qed

lemma mean_pitch_shown:
  assumes "speechPanel parse sd = Inr (SpeechPanel pn)"
  shows "sp_mean_pitch pn = or_else
      (opt_prop (opt_prop (opt_prop sd ''report'') ''pitch_analysis'') ''mean_pitch'') (JNum 0)"
  using assms by (auto simp: speechPanel_def metric_def Let_def split: sum.splits)

lemma silent_speech_panel:
  "speechPanel reads_nothing (silent_speech flag) = Inr (SpeechPanel \<lparr> sp_mean_pitch = JNum 0,
     sp_speech_rate = Some (Fin 0), sp_energy_level = JStr ''N/A'',
     sp_voice_clarity = JStr ''N/A'', sp_plot = None, sp_recommendations = None \<rparr>)"
  by (simp add: data render to_double_zero floor_eq_iff)

lemma silent_track_chart:
  "getChartData_pitch silent_track = Some (Inr (Some \<lparr> lc_labels = [Seconds 0, Blank, Blank],
     lc_name = ''Pitch (Hz)'', lc_data = [JNull, JNull, JNull] \<rparr>))"
  by (simp add: getChartData_pitch_def silent_track_def pitch_labels_def tick_label_def
      to_double_zero)

text \<open>
  C4. For every framed buffer whose voiced-frame ratio is 0, the pitch statistics of
  the extractor (as the spec gives them) carry \<open>insufficient_signal\<close> true and the
  neutral value in every pitch statistic, whatever the threshold and the neutral
  value are; the statistics are real numbers and the extraction is a total function.
  On the client, the "Mean Pitch" card of a speech tab that renders shows neither
  \<open>undefined\<close> nor \<open>null\<close>: it shows the number the report carries as mean pitch,
  whatever that number is, and the number 0 when the report carries none. The pitch
  chart of a track whose samples are all \<open>null\<close> or not above 0, with numbers as
  times, is drawn without an exception, every point of it a gap.
\<close>

theorem C4_silence_gives_neutral_pitch:
  "(voiced_ratio threshold fs = 0 \<longrightarrow>
      extract_pitch threshold neutral fs
        = \<lparr> pf_mean = neutral, pf_stdev = neutral, pf_min = neutral, pf_max = neutral,
            pf_voiced_ratio = neutral, pf_insufficient_signal = True \<rparr>)
   \<and> (speechPanel parse speechData = Inr (SpeechPanel pn) \<longrightarrow>
        sp_mean_pitch pn \<noteq> Undefined \<and> sp_mean_pitch pn \<noteq> JNull
        \<and> (opt_prop (opt_prop (opt_prop speechData ''report'') ''pitch_analysis'')
              ''mean_pitch'' = JNum n \<longrightarrow> sp_mean_pitch pn = JNum n)
        \<and> (\<not> truthy (opt_prop (opt_prop (opt_prop speechData ''report'') ''pitch_analysis'')
                  ''mean_pitch'') \<longrightarrow> sp_mean_pitch pn = JNum 0))
   \<and> (opt_prop pitch ''values'' = JArr vs
        \<and> (\<forall>v\<in>set vs. v = JNull \<or> (\<exists>x. v = JNum x \<and> x \<le> 0))
        \<and> opt_prop pitch ''time'' = JArr ts \<and> (\<forall>t\<in>set ts. \<exists>r. t = JNum r)
      \<longrightarrow> (\<exists>c. getChartData_pitch pitch = Some (Inr (Some c))
             \<and> lc_data c = replicate (length vs) JNull))"
proof (intro conjI impI)
  assume "voiced_ratio threshold fs = 0"
  then show "extract_pitch threshold neutral fs
      = \<lparr> pf_mean = neutral, pf_stdev = neutral, pf_min = neutral, pf_max = neutral,
          pf_voiced_ratio = neutral, pf_insufficient_signal = True \<rparr>"
    by (rule extract_pitch_silent)
next
  assume a: "speechPanel parse speechData = Inr (SpeechPanel pn)"
  show "sp_mean_pitch pn \<noteq> Undefined"
    unfolding mean_pitch_shown [OF a] by (auto simp: or_else_def)
next
  assume a: "speechPanel parse speechData = Inr (SpeechPanel pn)"
  show "sp_mean_pitch pn \<noteq> JNull"
    unfolding mean_pitch_shown [OF a] by (auto simp: or_else_def)
next
  assume a: "speechPanel parse speechData = Inr (SpeechPanel pn)"
    and b: "opt_prop (opt_prop (opt_prop speechData ''report'') ''pitch_analysis'')
          ''mean_pitch'' = JNum n"
  show "sp_mean_pitch pn = JNum n"
    unfolding mean_pitch_shown [OF a] using b by (simp add: or_else_def)
next
  assume a: "speechPanel parse speechData = Inr (SpeechPanel pn)"
    and b: "\<not> truthy (opt_prop (opt_prop (opt_prop speechData ''report'') ''pitch_analysis'')
              ''mean_pitch'')"
  show "sp_mean_pitch pn = JNum 0"
    unfolding mean_pitch_shown [OF a] using b by (simp add: or_else_def)
next
  assume "opt_prop pitch ''values'' = JArr vs
        \<and> (\<forall>v\<in>set vs. v = JNull \<or> (\<exists>x. v = JNum x \<and> x \<le> 0))
        \<and> opt_prop pitch ''time'' = JArr ts \<and> (\<forall>t\<in>set ts. \<exists>r. t = JNum r)"
  then show "\<exists>c. getChartData_pitch pitch = Some (Inr (Some c))
           \<and> lc_data c = replicate (length vs) JNull"
    using chart_of_silence [of pitch vs ts] by blast
qed

theorem C4_silence_gives_neutral_pitch_witness:
  "voiced_ratio energy_threshold silent_buffer = 0
   \<and> extract_pitch energy_threshold 0 silent_buffer
       = \<lparr> pf_mean = 0, pf_stdev = 0, pf_min = 0, pf_max = 0, pf_voiced_ratio = 0,
           pf_insufficient_signal = True \<rparr>
   \<and> speechPanel reads_nothing (silent_speech True)
       = Inr (SpeechPanel \<lparr> sp_mean_pitch = JNum 0, sp_speech_rate = Some (Fin 0),
           sp_energy_level = JStr ''N/A'', sp_voice_clarity = JStr ''N/A'', sp_plot = None,
           sp_recommendations = None \<rparr>)
   \<and> opt_prop (opt_prop (opt_prop (silent_speech True) ''report'') ''pitch_analysis'')
        ''mean_pitch'' = JNum 0
   \<and> opt_prop silent_track ''values'' = JArr [JNum 0, JNull, JNum 0]
   \<and> opt_prop silent_track ''time'' = JArr [JNum 0, JNum (1 / 64), JNum (1 / 32)]
   \<and> getChartData_pitch silent_track
       = Some (Inr (Some \<lparr> lc_labels = [Seconds 0, Blank, Blank], lc_name = ''Pitch (Hz)'',
           lc_data = [JNull, JNull, JNull] \<rparr>))"
proof -
  have r: "voiced_ratio energy_threshold silent_buffer = 0"
    by (simp add: voiced_ratio_def silent_buffer_def energy_threshold_def voiced_def)
  have m: "opt_prop (opt_prop (opt_prop (silent_speech True) ''report'') ''pitch_analysis'')
      ''mean_pitch'' = JNum 0"
    by (simp add: silent_speech_def)
  have v: "opt_prop silent_track ''values'' = JArr [JNum 0, JNull, JNum 0]"
    and t: "opt_prop silent_track ''time'' = JArr [JNum 0, JNum (1 / 64), JNum (1 / 32)]"
    by (simp_all add: silent_track_def)
  have s: "\<forall>v\<in>set [JNum 0, JNull, JNum 0]. v = JNull \<or> (\<exists>x. v = JNum x \<and> x \<le> 0)"
    by simp
  have n: "\<forall>t\<in>set [JNum 0, JNum (1 / 64), JNum (1 / 32)]. \<exists>r. t = JNum r"
  proof
    fix t
    assume "t \<in> set [JNum 0, JNum (1 / 64), JNum (1 / 32)]"
    then consider "t = JNum 0" | "t = JNum (1 / 64)" | "t = JNum (1 / 32)" by auto
    then show "\<exists>r. t = JNum r" by cases blast+
  qed
  from C4_silence_gives_neutral_pitch [of energy_threshold silent_buffer 0 reads_nothing
      "silent_speech True"
      "\<lparr> sp_mean_pitch = JNum 0, sp_speech_rate = Some (Fin 0), sp_energy_level = JStr ''N/A'',
         sp_voice_clarity = JStr ''N/A'', sp_plot = None, sp_recommendations = None \<rparr>"
      0 silent_track "[JNum 0, JNull, JNum 0]" "[JNum 0, JNum (1 / 64), JNum (1 / 32)]"]
    r m v t s n silent_speech_panel [of True] silent_track_chart
  show ?thesis by simp
qed

text \<open>
  Without a \<open>visualization\<close> nothing is parsed: the page does not depend on what
  \<open>JSON.parse\<close> would return.
\<close>

lemma no_visualization_no_plot:
  "\<not> truthy (opt_prop a ''visualization'') \<Longrightarrow> plot_source parse a = Inr None"
  by (simp add: plot_source_def)

lemma panels_without_visualization:
  assumes "\<not> truthy (opt_prop a ''visualization'')"
  shows "speechPanel parse a = speechPanel parse' a"
    and "videoPanel parse a = videoPanel parse' a"
  using assms by (simp_all add: speechPanel_def videoPanel_def no_visualization_no_plot)

lemma videoPanel_ignores_flag:
  "videoPanel parse (JObj ((''degraded'', x) # fs))
     = videoPanel parse (JObj ((''degraded'', y) # fs))"
  by (simp add: videoPanel_def plot_source_def Let_def split: sum.splits)

lemma videoPanel_ignores_report_flag:
  "videoPanel parse (JObj ((''report'', JObj ((''degraded'', x) # rs)) # fs))
     = videoPanel parse (JObj ((''report'', JObj ((''degraded'', y) # rs)) # fs))"
  by (simp add: videoPanel_def plot_source_def metric_def percent_metric_def recommendations_def
      Let_def split: sum.splits)

lemma render_speech_ignores_video:
  "renderSpeechAnalysis parse (analysis_of (qs[i := question_entry t sp v])) j
     = renderSpeechAnalysis parse (analysis_of (qs[i := question_entry t sp v'])) j"
proof (cases "j = i \<and> i < length qs")
  case True
  then show ?thesis
    by (simp add: renderSpeechAnalysis_def currentQuestion_def analysis_of_def question_entry_def)
next
  case False
  then have "(qs[i := question_entry t sp v]) ! j = (qs[i := question_entry t sp v']) ! j"
    by (cases "i < length qs") (auto simp: list_update_beyond)
  then show ?thesis
    by (simp add: renderSpeechAnalysis_def currentQuestion_def analysis_of_def)
qed

lemma render_video_ignores_flag:
  "renderVideoAnalysis parse
     (analysis_of (qs[i := question_entry t sp (JObj ((''degraded'', x) # fs))])) j
   = renderVideoAnalysis parse
     (analysis_of (qs[i := question_entry t sp (JObj ((''degraded'', y) # fs))])) j"
proof (cases "j = i \<and> i < length qs")
  case True
  then show ?thesis
    using videoPanel_ignores_flag [of parse x fs y]
    by (simp add: renderVideoAnalysis_def currentQuestion_def analysis_of_def question_entry_def)
next
  case False
  then have "(qs[i := question_entry t sp (JObj ((''degraded'', x) # fs))]) ! j
      = (qs[i := question_entry t sp (JObj ((''degraded'', y) # fs))]) ! j"
    by (cases "i < length qs") (auto simp: list_update_beyond)
  then show ?thesis
    by (simp add: renderVideoAnalysis_def currentQuestion_def analysis_of_def)
qed

text \<open>
  C8 (amended). The video tab shows the dominant emotion, eye contact, engagement,
  face detection rate, plot and recommendations of the video analysis and nothing
  else: a \<open>degraded\<close> property, whether on the video analysis or inside its report,
  reaches the client with the data and changes nothing on the page. The speech tab of
  a question does not depend on that question's video analysis.
\<close>

theorem C8_degraded_is_carried_but_not_shown:
  "videoPanel parse (JObj ((''degraded'', x) # fs))
     = videoPanel parse (JObj ((''degraded'', y) # fs))
   \<and> videoPanel parse (JObj ((''report'', JObj ((''degraded'', x) # rs)) # fs))
     = videoPanel parse (JObj ((''report'', JObj ((''degraded'', y) # rs)) # fs))
   \<and> renderVideoAnalysis parse
       (analysis_of (qs[i := question_entry t sp (JObj ((''degraded'', x) # fs))])) j
     = renderVideoAnalysis parse
       (analysis_of (qs[i := question_entry t sp (JObj ((''degraded'', y) # fs))])) j
   \<and> renderSpeechAnalysis parse (analysis_of (qs[i := question_entry t sp v])) j
     = renderSpeechAnalysis parse (analysis_of (qs[i := question_entry t sp v'])) j"
  using videoPanel_ignores_flag [of parse x fs y]
    videoPanel_ignores_report_flag [of parse x rs fs y]
    render_video_ignores_flag [of parse qs i t sp x fs j y]
    render_speech_ignores_video [of parse qs i t sp v j v']
  by simp

text \<open>
  C8, counterexample. The fallback video analysis with \<open>degraded\<close> true is shown as
  emotion "neutral", eye contact and engagement N/A and face detection 0, with no sign
  of the flag: the page is the same as for \<open>degraded\<close> false.
\<close>

theorem C8_degraded_flag_is_not_shown:
  "videoPanel reads_nothing (fallback_video True)
     = Inr (VideoPanel \<lparr> vp_dominant_emotion = JStr ''neutral'',
         vp_eye_contact = JStr ''N/A'', vp_engagement = JStr ''N/A'',
         vp_face_detection = Some (Fin 0), vp_plot = None, vp_recommendations = None \<rparr>)
   \<and> videoPanel reads_nothing (fallback_video False)
     = videoPanel reads_nothing (fallback_video True)"
  by (simp add: data render to_double_zero floor_eq_iff)

end
